theory Spec2Isabelle
  imports Complex_Main "HOL-Library.Word"
begin

section \<open>Values of the host language\<close>

text \<open>
  A JavaScript string is a sequence of 16-bit code units; a \<open>Uint8Array\<close> or an
  \<open>ArrayBuffer\<close> is a sequence of bytes.  String literals of the source are written
  \<open>js ''...''\<close>.
\<close>

type_synonym code_unit = "16 word"
type_synonym jsstring = "code_unit list"
type_synonym byte = "8 word"

definition js :: "string \<Rightarrow> jsstring" where
  "js s = map (\<lambda>c. of_nat (of_char c)) s"

text \<open>
  Numbers: a finite Number is given by its mathematical value (every finite double is a
  rational); \<open>NaN\<close> and the two infinities are values of their own.
\<close>

datatype jsnumber = Finite rat | NaN | PosInfinity | NegInfinity

text \<open>
  Thrown values.  Every error the source or the platform raises here is an \<open>Error\<close>
  object with a \<open>message\<close>; \<open>DOMException\<close> carries its name.  The wording of the
  messages the engine itself produces is the engine's own (V8's is used).
\<close>

datatype error_kind = Error | TypeError | SyntaxError | DOMException jsstring

datatype jserror = Thrown (kind: error_kind) (message: jsstring)

text \<open>
  The elements a plain array can hold, as \<open>Uint8Array.from\<close> tells them apart:
  Numbers, strings, \<open>undefined\<close>, \<open>null\<close>, booleans, BigInts, Symbols and objects
  (arrays among them).  Converting an object to a Number runs its \<open>Symbol.toPrimitive\<close>,
  \<open>valueOf\<close> and \<open>toString\<close> methods, which are code of the object; an object
  element is therefore given by what that conversion comes to: a Number, or the error
  thrown on the way (an \<open>Error\<close> object, as every thrown value here; what else those
  methods do is not followed).  An object with no such method of its own, as an empty
  object literal, is \<open>EObject (Inr NaN)\<close>.
\<close>

datatype jselem =
    ENumber jsnumber
  | EString jsstring
  | EUndefined
  | ENull
  | EBoolean bool
  | EBigInt int
  | ESymbol
  | EObject "jserror + jsnumber"

text \<open>
  Values: what the two \<open>unknown\<close>-typed parameters of the transcoder are given, and what
  travels inside request bodies.  The transcoder tells strings, plain arrays,
  \<open>ArrayBuffer\<close>s and \<open>Uint8Array\<close>s from everything else.
\<close>

datatype jsvalue =
    JSUndefined
  | JSNull
  | JSBoolean bool
  | JSNumber jsnumber
  | JSString jsstring
  | JSArray "jselem list"
  | JSArrayBuffer "byte list"
  | JSUint8Array "byte list"
  | JSObject "(jsstring \<times> jsvalue) list"

section \<open>Data of the client\<close>

text \<open>\<open>interface Config\<close>, and the class \<open>Client\<close>, whose only field is its configuration.\<close>

record Config =
  apiUrl :: jsstring
  apiKey :: jsstring
  origin :: jsstring
  rpid :: jsstring

record Client =
  config :: Config

text \<open>
  \<open>AtLeast<Config, 'apiKey'>\<close>, the argument of the constructor: the API key, and
  whichever of the other three members the caller gives.
\<close>

record ConfigArg =
  arg_apiUrl :: "jsstring option"
  arg_apiKey :: jsstring
  arg_origin :: "jsstring option"
  arg_rpid :: "jsstring option"

text \<open>
  Modelled from the spec: the types \<open>RegisterBeginResponse\<close>, \<open>SigninBeginResponse\<close>,
  \<open>RegisterCompleteResponse\<close>, \<open>SigninCompleteResponse\<close>, \<open>SigninMethod\<close> and \<open>AtLeast\<close>
  of \<open>./types\<close>, which \<open>passwordless.ts\<close> imports.  A begin response is a session id
  and the ceremony options: a challenge and, for a registration, a user entity and an
  exclusion list, for a sign-in an allow list.  The records have the members the client
  reads or writes; members it only passes on (\<open>rp\<close>, \<open>pubKeyCredParams\<close>, \<open>timeout\<close>,
  the \<open>type\<close> and \<open>transports\<close> of a descriptor, ...) are left out.  A member that holds
  base64url text in the backend's answer and a buffer after the client has transcoded it
  is a \<open>jsvalue\<close>.
\<close>

record CredentialDescriptor =
  id' :: jsvalue

record UserEntity =
  user_id :: jsvalue

record PublicKeyOptions =
  challenge :: jsvalue

record CreationOptions = PublicKeyOptions +
  user :: UserEntity
  excludeCredentials :: "CredentialDescriptor list option"

record RequestOptions = PublicKeyOptions +
  allowCredentials :: "CredentialDescriptor list option"

text \<open>\<open>RegisterBeginResponse\<close> and \<open>SigninBeginResponse\<close>.\<close>

record 'options BeginResponse =
  sessionId :: jsstring
  data :: 'options

text \<open>\<open>SigninCompleteResponse\<close>; \<open>RegisterCompleteResponse\<close> is any parsed JSON value.\<close>

record SigninCompleteResponse =
  data :: jsstring

text \<open>
  \<open>SigninMethod\<close>, an object that has a \<open>userId\<close> member, an \<open>alias\<close> member, or (for
  what the type allows) both or neither; \<open>None\<close> is an absent member.
\<close>

record SigninMethod =
  userId :: "jsstring option"
  "alias" :: "jsstring option"

text \<open>
  The platform's \<open>PublicKeyCredential\<close>.  Its \<open>response\<close> is an attestation after
  \<open>create\<close> and an assertion after \<open>get\<close>; the source reads it through an unchecked
  cast, so reading a member the response does not have gives \<open>undefined\<close> (\<open>None\<close>).
  \<open>clientExtensionResults\<close> holds the members of the object that
  \<open>getClientExtensionResults()\<close> returns.  The members \<open>id\<close> of a descriptor, of the user entity and of a credential are
  \<open>id'\<close>, \<open>user_id\<close> and \<open>credential_id\<close>.
\<close>

datatype AuthenticatorResponse =
    AttestationResponse "byte list" "byte list"
  | AssertionResponse "byte list" "byte list" "byte list"

fun attestationObject :: "AuthenticatorResponse \<Rightarrow> byte list option" where
  "attestationObject (AttestationResponse a c) = Some a"
| "attestationObject (AssertionResponse a c s) = None"

fun clientDataJSON :: "AuthenticatorResponse \<Rightarrow> byte list option" where
  "clientDataJSON (AttestationResponse a c) = Some c"
| "clientDataJSON (AssertionResponse a c s) = Some c"

fun authenticatorData :: "AuthenticatorResponse \<Rightarrow> byte list option" where
  "authenticatorData (AttestationResponse a c) = None"
| "authenticatorData (AssertionResponse a c s) = Some a"

fun signature :: "AuthenticatorResponse \<Rightarrow> byte list option" where
  "signature (AttestationResponse a c) = None"
| "signature (AssertionResponse a c s) = Some s"

record PublicKeyCredential =
  credential_id :: jsstring
  rawId :: "byte list"
  type :: jsstring
  clientExtensionResults :: "(jsstring \<times> jsvalue) list"
  response :: AuthenticatorResponse

text \<open>
  A call of \<open>fetch\<close>: the URL and the members of the init object.  The body is JSON
  text of an object; it is kept as the list of members that text has.
\<close>

record Request =
  url :: jsstring
  "method" :: jsstring
  headers :: "(jsstring \<times> jsstring) list"
  body :: "(jsstring \<times> jsvalue) list"

text \<open>
  What a run does to the outside world, in order: network requests, invocations of the
  credential capability, console output.
\<close>

datatype event =
    Fetch Request
  | CredentialsCreate CreationOptions
  | CredentialsGet RequestOptions
  | ConsoleWarn jsstring jsvalue
  | ConsoleError jserror

text \<open>
  A computation that may throw and that leaves a trace of events.  \<open>and_then\<close> is the
  sequencing of statements (and of \<open>await\<close>): a throw skips what follows.
\<close>

type_synonym 'a run = "(jserror + 'a) \<times> event list"

definition and_then :: "'a run \<Rightarrow> ('a \<Rightarrow> 'b run) \<Rightarrow> 'b run" where
  "and_then m f =
     (case m of
        (Inl e, t) \<Rightarrow> (Inl e, t)
      | (Inr a, t) \<Rightarrow> (case f a of (r, t') \<Rightarrow> (r, t @ t')))"

section \<open>Platform functions used by the transcoder\<close>

subsection \<open>\<open>btoa\<close> and \<open>atob\<close>\<close>

text \<open>
  The base64 alphabet of RFC 4648, section 4: \<open>A\<close>-\<open>Z\<close>, \<open>a\<close>-\<open>z\<close>, \<open>0\<close>-\<open>9\<close>,
  \<open>+\<close>, \<open>/\<close>, given by code unit.
\<close>

definition b64_char :: "nat \<Rightarrow> code_unit" where
  "b64_char v = of_nat
     (if v < 26 then v + 65
      else if v < 52 then v + 71
      else if v < 62 then v - 4
      else if v = 62 then 43
      else 47)"

definition b64_value :: "code_unit \<Rightarrow> nat option" where
  "b64_value c =
     (let n = unat c in
      if 65 \<le> n \<and> n \<le> 90 then Some (n - 65)
      else if 97 \<le> n \<and> n \<le> 122 then Some (n - 71)
      else if 48 \<le> n \<and> n \<le> 57 then Some (n + 4)
      else if n = 43 then Some 62
      else if n = 47 then Some 63
      else None)"

text \<open>Three bytes make four 6-bit groups; a rest of one or two bytes makes two or three.\<close>

fun b64_groups :: "byte list \<Rightarrow> nat list" where
  "b64_groups (a # b # c # rest) =
     [unat a div 4,
      (unat a mod 4) * 16 + unat b div 16,
      (unat b mod 16) * 4 + unat c div 64,
      unat c mod 64] @ b64_groups rest"
| "b64_groups [a, b] =
     [unat a div 4,
      (unat a mod 4) * 16 + unat b div 16,
      (unat b mod 16) * 4]"
| "b64_groups [a] =
     [unat a div 4,
      (unat a mod 4) * 16]"
| "b64_groups [] = []"

definition b64_padding :: "nat \<Rightarrow> jsstring" where
  "b64_padding n = replicate ((3 - n mod 3) mod 3) 61"

text \<open>
  \<open>btoa(text)\<close>: throws \<open>InvalidCharacterError\<close> when \<open>text\<close> holds a code unit above
  \<open>0xFF\<close>; otherwise the padded base64 text of the bytes the code units denote.
\<close>

definition invalid_character :: jserror where
  "invalid_character =
     Thrown (DOMException (js ''InvalidCharacterError''))
       (js ''The string contains invalid characters.'')"

definition btoa :: "jsstring \<Rightarrow> jserror + jsstring" where
  "btoa text =
     (if list_ex (\<lambda>c. 255 < unat c) text then Inl invalid_character
      else Inr (map b64_char (b64_groups (map ucast text)) @ b64_padding (length text)))"

text \<open>
  Four 6-bit groups make three bytes; a rest of three or two groups makes two or one
  byte, the bits left over being dropped.  A rest of one group does not occur (see
  \<open>atob\<close>).
\<close>

fun b64_bytes :: "nat list \<Rightarrow> nat list" where
  "b64_bytes (p # q # r # s # rest) =
     [p * 4 + q div 16,
      (q mod 16) * 16 + r div 4,
      (r mod 4) * 64 + s] @ b64_bytes rest"
| "b64_bytes [p, q, r] =
     [p * 4 + q div 16,
      (q mod 16) * 16 + r div 4]"
| "b64_bytes [p, q] =
     [p * 4 + q div 16]"
| "b64_bytes [p] = []"
| "b64_bytes [] = []"

definition ascii_whitespace :: "code_unit \<Rightarrow> bool" where
  "ascii_whitespace c = (c = 9 \<or> c = 10 \<or> c = 12 \<or> c = 13 \<or> c = 32)"

definition strip_padding :: "jsstring \<Rightarrow> jsstring" where
  "strip_padding d =
     (if length d mod 4 = 0 then
        (if 2 \<le> length d \<and> drop (length d - 2) d = [61, 61] then take (length d - 2) d
         else if 1 \<le> length d \<and> drop (length d - 1) d = [61] then take (length d - 1) d
         else d)
      else d)"

text \<open>The values of a text over the alphabet; \<open>None\<close> when a code unit is outside it.\<close>

fun b64_values :: "jsstring \<Rightarrow> nat list option" where
  "b64_values [] = Some []"
| "b64_values (c # cs) =
     (case b64_value c of
        None \<Rightarrow> None
      | Some v \<Rightarrow> (case b64_values cs of None \<Rightarrow> None | Some vs \<Rightarrow> Some (v # vs)))"

text \<open>
  \<open>atob(text)\<close>, the forgiving base64 decoding of the HTML standard: ASCII whitespace is
  removed; when the length is a multiple of four, one or two trailing \<open>=\<close> are removed;
  a length of the form \<open>4k + 1\<close> or a code unit outside the alphabet is an
  \<open>InvalidCharacterError\<close>; otherwise the groups are turned into bytes, each byte a
  code unit of the result.
\<close>

definition atob :: "jsstring \<Rightarrow> jserror + jsstring" where
  "atob text =
     (let d = strip_padding (filter (\<lambda>c. \<not> ascii_whitespace c) text) in
      if length d mod 4 = 1 then Inl invalid_character
      else (case b64_values d of
              None \<Rightarrow> Inl invalid_character
            | Some vs \<Rightarrow> Inr (map of_nat (b64_bytes vs))))"

subsection \<open>\<open>Uint8Array.from\<close>\<close>

text \<open>
  \<open>StringToNumber\<close>, the conversion of a string element: the text is read as a
  \<open>StringNumericLiteral\<close> and what is not one is \<open>NaN\<close>; the conversion never throws.
  A Number is a double, so the value of a literal is rounded to the nearest double, ties
  to the even significand, and beyond the largest double to an infinity.  (The sign of a
  zero is not kept: \<open>ToUint8\<close> gives 0 for both zeros.)
\<close>

fun negate :: "jsnumber \<Rightarrow> jsnumber" where
  "negate (Finite q) = Finite (- q)"
| "negate NaN = NaN"
| "negate PosInfinity = NegInfinity"
| "negate NegInfinity = PosInfinity"

text \<open>
  An integer \<open>b\<close> to an integer power, and the number of bits of a positive integer.
\<close>

definition int_power :: "int \<Rightarrow> int \<Rightarrow> rat" where
  "int_power b k = (if 0 \<le> k then of_int (b ^ nat k) else 1 / of_int (b ^ nat (- k)))"

function bit_length :: "int \<Rightarrow> int" where
  "bit_length n = (if n \<le> 0 then 0 else bit_length (n div 2) + 1)"
  by pat_completeness auto
termination
proof (relation "measure nat")
  show "wf (measure nat)" by simp
next
  fix n :: int
  assume "\<not> n \<le> 0"
  then have "n div 2 < n" and "0 < n" by simp_all
  then show "(n div 2, n) \<in> measure nat" by simp
qed

declare bit_length.simps [simp del]

text \<open>The exponent \<open>e\<close> with \<open>2^e \<le> q < 2^(e+1)\<close>, for a positive \<open>q\<close>.\<close>

definition floor_log2 :: "rat \<Rightarrow> int" where
  "floor_log2 q =
     (case quotient_of q of (a, b) \<Rightarrow>
        (let k = bit_length a - bit_length b
         in if int_power 2 k \<le> q then k else k - 1))"

definition round_half_even :: "rat \<Rightarrow> int" where
  "round_half_even x =
     (let f = \<lfloor>x\<rfloor>; d = x - of_int f
      in if d < 1 / 2 then f
         else if 1 / 2 < d then f + 1
         else if even f then f else f + 1)"

text \<open>
  The double nearest to a mathematical value \<open>q \<ge> 0\<close>: 53 significant bits above
  \<open>2^-1022\<close>, multiples of \<open>2^-1074\<close> below.  (For a literal of more than 20
  significant digits the standard allows an approximation; engines round exactly, as
  here.)
\<close>

definition RoundMVResult :: "rat \<Rightarrow> jsnumber" where
  "RoundMVResult q =
     (if q = 0 then Finite 0
      else
        (let e = max (floor_log2 q) (- 1022);
             ulp = int_power 2 (e - 52);
             r = of_int (round_half_even (q / ulp)) * ulp
         in if int_power 2 1024 \<le> r then PosInfinity else Finite r))"

text \<open>
  \<open>StrWhiteSpaceChar\<close>: the white space (TAB, VT, FF, the space separators of Unicode,
  U+FEFF) and the line terminators (LF, CR, U+2028, U+2029), which may surround the
  literal.
\<close>

definition StrWhiteSpaceChar :: "code_unit \<Rightarrow> bool" where
  "StrWhiteSpaceChar c =
     (let n = uint c in
        n \<in> set [9, 10, 11, 12, 13, 32, 160, 5760, 8232, 8233, 8239, 8287, 12288, 65279] \<or>
        (8192 \<le> n \<and> n \<le> 8202))"

definition strip_whitespace :: "jsstring \<Rightarrow> jsstring" where
  "strip_whitespace s =
     rev (dropWhile StrWhiteSpaceChar (rev (dropWhile StrWhiteSpaceChar s)))"

text \<open>
  Digits: the value of a digit in a radix, and of a run of digits (\<open>None\<close> when a code
  unit is not a digit of the radix).
\<close>

definition digit_value :: "int \<Rightarrow> code_unit \<Rightarrow> int option" where
  "digit_value radix c =
     (let n = uint c;
          v = (if 48 \<le> n \<and> n \<le> 57 then Some (n - 48)
               else if 97 \<le> n \<and> n \<le> 102 then Some (n - 87)
               else if 65 \<le> n \<and> n \<le> 70 then Some (n - 55)
               else None)
      in case v of None \<Rightarrow> None | Some d \<Rightarrow> if d < radix then Some d else None)"

fun digits_value :: "int \<Rightarrow> int \<Rightarrow> jsstring \<Rightarrow> int option" where
  "digits_value radix acc [] = Some acc"
| "digits_value radix acc (c # cs) =
     (case digit_value radix c of
        None \<Rightarrow> None
      | Some d \<Rightarrow> digits_value radix (acc * radix + d) cs)"

definition DecimalDigit :: "code_unit \<Rightarrow> bool" where
  "DecimalDigit c = (48 \<le> uint c \<and> uint c \<le> 57)"

text \<open>\<open>0x\<close>, \<open>0o\<close>, \<open>0b\<close> (in either case) and at least one digit; no sign.\<close>

definition NonDecimalIntegerLiteral :: "jsstring \<Rightarrow> int option" where
  "NonDecimalIntegerLiteral t =
     (case t of
        z # x # d # ds \<Rightarrow>
          if z \<noteq> 48 then None
          else if x = 120 \<or> x = 88 then digits_value 16 0 (d # ds)
          else if x = 111 \<or> x = 79 then digits_value 8 0 (d # ds)
          else if x = 98 \<or> x = 66 then digits_value 2 0 (d # ds)
          else None
      | _ \<Rightarrow> None)"

text \<open>
  The exponent part, when there is one: \<open>e\<close> or \<open>E\<close>, an optional sign, at least one
  digit.
\<close>

definition SignedInteger :: "jsstring \<Rightarrow> int option" where
  "SignedInteger t =
     (case t of
        [] \<Rightarrow> None
      | c # ds \<Rightarrow>
          if c = 43 then (if ds = [] then None else digits_value 10 0 ds)
          else if c = 45 then (if ds = [] then None else map_option uminus (digits_value 10 0 ds))
          else digits_value 10 0 t)"

definition ExponentPart_opt :: "jsstring \<Rightarrow> int option" where
  "ExponentPart_opt t =
     (case t of
        [] \<Rightarrow> Some 0
      | c # rest \<Rightarrow> if c = 101 \<or> c = 69 then SignedInteger rest else None)"

text \<open>
  \<open>Infinity\<close>, or digits with an optional point and an optional exponent part; there is a
  digit before the point or after it.
\<close>

definition StrUnsignedDecimalLiteral :: "jsstring \<Rightarrow> jsnumber option" where
  "StrUnsignedDecimalLiteral t =
     (if t = js ''Infinity'' then Some PosInfinity
      else
        (let whole = takeWhile DecimalDigit t;
             after_whole = dropWhile DecimalDigit t;
             fraction = (case after_whole of
                           c # rest \<Rightarrow> if c = 46 then takeWhile DecimalDigit rest else []
                         | [] \<Rightarrow> []);
             after_fraction = (case after_whole of
                           c # rest \<Rightarrow> if c = 46 then dropWhile DecimalDigit rest else after_whole
                         | [] \<Rightarrow> [])
         in if whole = [] \<and> fraction = [] then None
            else (case ExponentPart_opt after_fraction of
                    None \<Rightarrow> None
                  | Some e \<Rightarrow>
                      (case digits_value 10 0 (whole @ fraction) of
                         None \<Rightarrow> None
                       | Some m \<Rightarrow>
                           Some (RoundMVResult (of_int m * int_power 10 (e - int (length fraction))))))))"

text \<open>
  The empty text (after the white space is taken off) is 0; a decimal literal may carry a
  sign.
\<close>

definition StringToNumber :: "jsstring \<Rightarrow> jsnumber" where
  "StringToNumber str =
     (let t = strip_whitespace str in
      case t of
        [] \<Rightarrow> Finite 0
      | c # rest \<Rightarrow>
          (case NonDecimalIntegerLiteral t of
             Some n \<Rightarrow> RoundMVResult (of_int n)
           | None \<Rightarrow>
               if c = 43 then
                 (case StrUnsignedDecimalLiteral rest of Some n \<Rightarrow> n | None \<Rightarrow> NaN)
               else if c = 45 then
                 (case StrUnsignedDecimalLiteral rest of Some n \<Rightarrow> negate n | None \<Rightarrow> NaN)
               else
                 (case StrUnsignedDecimalLiteral t of Some n \<Rightarrow> n | None \<Rightarrow> NaN)))"

text \<open>
  \<open>Uint8Array.from(array)\<close>: each element, in order, is converted with \<open>ToNumber\<close>,
  which throws a \<open>TypeError\<close> for a BigInt and for a Symbol and whatever the conversion of
  an object throws, and then with \<open>ToUint8\<close>: a value that is not finite gives 0, a
  finite one is truncated towards zero and reduced modulo \<open>2^8\<close>.
\<close>

fun ToNumber :: "jselem \<Rightarrow> jserror + jsnumber" where
  "ToNumber (ENumber n) = Inr n"
| "ToNumber (EString s) = Inr (StringToNumber s)"
| "ToNumber EUndefined = Inr NaN"
| "ToNumber ENull = Inr (Finite 0)"
| "ToNumber (EBoolean b) = Inr (Finite (if b then 1 else 0))"
| "ToNumber (EBigInt i) = Inl (Thrown TypeError (js ''Cannot convert a BigInt value to a number''))"
| "ToNumber ESymbol = Inl (Thrown TypeError (js ''Cannot convert a Symbol value to a number''))"
| "ToNumber (EObject outcome) = outcome"

definition js_truncate :: "rat \<Rightarrow> int" where
  "js_truncate q = (if 0 \<le> q then \<lfloor>q\<rfloor> else \<lceil>q\<rceil>)"

fun ToUint8 :: "jsnumber \<Rightarrow> byte" where
  "ToUint8 (Finite q) = word_of_int (js_truncate q)"
| "ToUint8 NaN = 0"
| "ToUint8 PosInfinity = 0"
| "ToUint8 NegInfinity = 0"

fun Uint8Array_from :: "jselem list \<Rightarrow> jserror + byte list" where
  "Uint8Array_from [] = Inr []"
| "Uint8Array_from (x # xs) =
     (case ToNumber x of
        Inl e \<Rightarrow> Inl e
      | Inr n \<Rightarrow> (case Uint8Array_from xs of
                   Inl e \<Rightarrow> Inl e
                 | Inr bs \<Rightarrow> Inr (ToUint8 n # bs)))"

section \<open>The transcoder\<close>

text \<open>\<open>s.replace(/x/g, y)\<close> for single code units \<open>x\<close> and \<open>y\<close>.\<close>

definition replace_all :: "code_unit \<Rightarrow> code_unit \<Rightarrow> jsstring \<Rightarrow> jsstring" where
  "replace_all x y s = map (\<lambda>c. if c = x then y else c) s"

text \<open>
  \<open>s.replace(/=*$/g, '')\<close>: the pattern matches the longest run of \<open>=\<close> that reaches the
  end of the string (and then the empty string at the end), so the trailing \<open>=\<close> go.
\<close>

definition strip_trailing_equals :: "jsstring \<Rightarrow> jsstring" where
  "strip_trailing_equals s = rev (dropWhile (\<lambda>c. c = 61) (rev s))"

definition base64ToBase64Url :: "jsstring \<Rightarrow> jsstring" where
  "base64ToBase64Url base64 =
     strip_trailing_equals (replace_all 47 95 (replace_all 43 45 base64))"

definition base64UrlToBase64 :: "jsstring \<Rightarrow> jsstring" where
  "base64UrlToBase64 base64Url = replace_all 95 47 (replace_all 45 43 base64Url)"

text \<open>
  The loop of \<open>coerceToArrayBuffer\<close>:
  \<^verbatim>\<open>for (let i = 0; i < string.length; i++) bytes[i] = string.charCodeAt(i);\<close>
  A store into a \<open>Uint8Array\<close> keeps the low eight bits.
\<close>

function fill_bytes :: "jsstring \<Rightarrow> nat \<Rightarrow> byte list \<Rightarrow> byte list" where
  "fill_bytes string i bytes =
     (if i < length string then fill_bytes string (Suc i) (bytes[i := ucast (string ! i)])
      else bytes)"
  by pat_completeness auto
termination
  by (relation "measure (\<lambda>(string, i, bytes). length string - i)") auto

definition coerceToArrayBuffer :: "jsvalue \<Rightarrow> byte list run" where
  "coerceToArrayBuffer value =
     (case value of
        JSString s \<Rightarrow>
          (case atob (base64UrlToBase64 s) of
             Inl e \<Rightarrow> (Inl e, [])
           | Inr string \<Rightarrow> (Inr (fill_bytes string 0 (replicate (length string) 0)), []))
      | _ \<Rightarrow> (Inl (Thrown TypeError (js ''Could not coerce to ArrayBuffer'')),
              [ConsoleWarn (js ''Could not coerce to string:'') value]))"

text \<open>
  The loop of \<open>coerceToBase64Url\<close>:
  \<^verbatim>\<open>for (let i = 0; i < uint8Array.byteLength; i++) string += String.fromCharCode(uint8Array[i]);\<close>
\<close>

function append_chars :: "byte list \<Rightarrow> nat \<Rightarrow> jsstring \<Rightarrow> jsstring" where
  "append_chars uint8Array i string =
     (if i < length uint8Array then append_chars uint8Array (Suc i) (string @ [ucast (uint8Array ! i)])
      else string)"
  by pat_completeness auto
termination
  by (relation "measure (\<lambda>(uint8Array, i, string). length uint8Array - i)") auto

definition toUint8Array :: "jsvalue \<Rightarrow> byte list run" where
  "toUint8Array value =
     (case value of
        JSArray xs \<Rightarrow> (Uint8Array_from xs, [])
      | JSArrayBuffer bs \<Rightarrow> (Inr bs, [])
      | JSUint8Array bs \<Rightarrow> (Inr bs, [])
      | _ \<Rightarrow> (Inl (Thrown Error (js ''Could not coerce to string'')),
              [ConsoleWarn (js ''Could not coerce to string:'') value]))"

definition coerceToBase64Url :: "jsvalue \<Rightarrow> jsstring run" where
  "coerceToBase64Url value =
     (case toUint8Array value of
        (Inl e, out) \<Rightarrow> (Inl e, out)
      | (Inr uint8Array, out) \<Rightarrow>
          (case btoa (append_chars uint8Array 0 []) of
             Inl e \<Rightarrow> (Inl e, out)
           | Inr base64String \<Rightarrow> (Inr (base64ToBase64Url base64String), out)))"

text \<open>
  The closed form of the encoder's result for a byte sequence (see
  \<open>coerceToBase64Url_bytes\<close> below).
\<close>

definition base64url :: "byte list \<Rightarrow> jsstring" where
  "base64url bs = replace_all 47 95 (replace_all 43 45 (map b64_char (b64_groups bs)))"

section \<open>The environment of a ceremony\<close>

text \<open>
  \<open>window.PublicKeyCredential\<close> is undefined, a function, or something else.
\<close>

datatype binding = Unbound | FunctionBound | OtherBound

text \<open>
  The backend and the platform, as the client sees them during one ceremony.  Each
  network oracle is \<open>fetch(url, init)\<close> followed by \<open>response.json()\<close>, read at the type
  the source declares for it; either step may reject.  The credential oracles are
  \<open>navigator.credentials.create\<close> and \<open>navigator.credentials.get\<close>, which reject or
  resolve to a credential or to \<open>null\<close>.
\<close>

record Env =
  window_PublicKeyCredential :: binding
  register_begin_json :: "Request \<Rightarrow> jserror + CreationOptions BeginResponse"
  register_complete_json :: "Request \<Rightarrow> jserror + jsvalue"
  signin_begin_json :: "Request \<Rightarrow> jserror + RequestOptions BeginResponse"
  signin_complete_json :: "Request \<Rightarrow> jserror + SigninCompleteResponse"
  credentials_create :: "CreationOptions \<Rightarrow> jserror + PublicKeyCredential option"
  credentials_get :: "RequestOptions \<Rightarrow> jserror + PublicKeyCredential option"

definition isBrowserSupported :: "Env \<Rightarrow> bool" where
  "isBrowserSupported env =
     (window_PublicKeyCredential env \<noteq> Unbound \<and> window_PublicKeyCredential env = FunctionBound)"

text \<open>
  \<open>JSON.stringify\<close> of an object literal leaves out the members whose value is
  \<open>undefined\<close>.
\<close>

definition JSON_stringify :: "(jsstring \<times> jsvalue) list \<Rightarrow> (jsstring \<times> jsvalue) list" where
  "JSON_stringify members = filter (\<lambda>(k, v). v \<noteq> JSUndefined) members"

text \<open>Reading \<open>credential.response\<close> (or any member) of \<open>null\<close> throws a \<open>TypeError\<close>.\<close>

definition null_member_read :: jserror where
  "null_member_read =
     Thrown TypeError (js ''Cannot read properties of null (reading 'response')'')"

text \<open>\<open>new Uint8Array(buffer)\<close>; of \<open>undefined\<close> it is the empty array.\<close>

fun new_Uint8Array :: "byte list option \<Rightarrow> jsvalue" where
  "new_Uint8Array (Some buffer) = JSUint8Array buffer"
| "new_Uint8Array None = JSUint8Array []"

section \<open>The client\<close>

text \<open>
  The constructor: the field initialiser builds the default configuration from
  \<open>window.location\<close>, and \<open>Object.assign\<close> overwrites the members the argument has.
\<close>

definition new_Client :: "jsstring \<Rightarrow> jsstring \<Rightarrow> ConfigArg \<Rightarrow> Client" where
  "new_Client location_origin location_hostname arg =
     \<lparr>config =
        \<lparr>apiUrl = (case arg_apiUrl arg of Some u \<Rightarrow> u | None \<Rightarrow> js ''https://v3.passwordless.dev''),
         apiKey = arg_apiKey arg,
         origin = (case arg_origin arg of Some orig \<Rightarrow> orig | None \<Rightarrow> location_origin),
         rpid = (case arg_rpid arg of Some r \<Rightarrow> r | None \<Rightarrow> location_hostname)\<rparr>\<rparr>"

definition unsupported_browser :: jserror where
  "unsupported_browser =
     Thrown Error (js ''WebAuthn and PublicKeyCredentials are not supported on this browser/device'')"

definition assertBrowserSupported :: "Env \<Rightarrow> unit run" where
  "assertBrowserSupported env =
     (if \<not> isBrowserSupported env then (Inl unsupported_browser, [])
      else (Inr (), []))"

definition createHeaders :: "Client \<Rightarrow> (jsstring \<times> jsstring) list" where
  "createHeaders this =
     [(js ''ApiKey'', apiKey (config this)),
      (js ''Content-Type'', js ''application/json'')]"

definition registerBegin :: "Env \<Rightarrow> Client \<Rightarrow> jsstring \<Rightarrow> CreationOptions BeginResponse run" where
  "registerBegin env this token =
     (let request =
        \<lparr>url = apiUrl (config this) @ js ''/register/begin'',
         method = js ''POST'',
         headers = createHeaders this,
         body = JSON_stringify
           [(js ''token'', JSString token),
            (js ''RPID'', JSString (rpid (config this))),
            (js ''Origin'', JSString (origin (config this)))]\<rparr>
      in (register_begin_json env request, [Fetch request]))"

definition registerComplete ::
  "Env \<Rightarrow> Client \<Rightarrow> PublicKeyCredential option \<Rightarrow> jsstring \<Rightarrow> jsstring \<Rightarrow> jsvalue run" where
  "registerComplete env this credential sessionId' credentialNickname =
     (case credential of
        None \<Rightarrow> (Inl null_member_read, [])
      | Some cred \<Rightarrow>
          (let attestationResponse = response cred in
           and_then (coerceToBase64Url (new_Uint8Array (Some (rawId cred)))) (\<lambda>rawId_text.
           and_then (coerceToBase64Url (new_Uint8Array (attestationObject attestationResponse))) (\<lambda>attestation_text.
           and_then (coerceToBase64Url (new_Uint8Array (clientDataJSON attestationResponse))) (\<lambda>clientData_text.
           (let request =
              \<lparr>url = apiUrl (config this) @ js ''/register/complete'',
               method = js ''POST'',
               headers = createHeaders this,
               body = JSON_stringify
                 [(js ''sessionId'', JSString sessionId'),
                  (js ''response'', JSObject
                     [(js ''id'', JSString (credential_id cred)),
                      (js ''rawId'', JSString rawId_text),
                      (js ''type'', JSString (type cred)),
                      (js ''extensions'', JSObject (clientExtensionResults cred)),
                      (js ''response'', JSObject
                         [(js ''AttestationObject'', JSString attestation_text),
                          (js ''clientDataJson'', JSString clientData_text)])]),
                  (js ''nickname'', JSString credentialNickname),
                  (js ''RPID'', JSString (rpid (config this))),
                  (js ''Origin'', JSString (origin (config this)))]\<rparr>
            in (register_complete_json env request, [Fetch request])))))))"

text \<open>
  \<open>creds.forEach((cred) => { cred.id = this.coerceToArrayBuffer(cred.id); })\<close>: the
  descriptors are rewritten in order, and the first failure ends the loop.
\<close>

fun coerce_ids :: "CredentialDescriptor list \<Rightarrow> CredentialDescriptor list run" where
  "coerce_ids [] = (Inr [], [])"
| "coerce_ids (cred # creds) =
     and_then (coerceToArrayBuffer (id' cred)) (\<lambda>buffer.
     and_then (coerce_ids creds) (\<lambda>creds'.
     (Inr (cred\<lparr>id' := JSUint8Array buffer\<rparr> # creds'), [])))"

text \<open>\<open>list?.forEach(...)\<close>: nothing happens when the list is absent.\<close>

fun coerce_optional_ids :: "CredentialDescriptor list option \<Rightarrow> CredentialDescriptor list option run" where
  "coerce_optional_ids None = (Inr None, [])"
| "coerce_optional_ids (Some creds) = and_then (coerce_ids creds) (\<lambda>creds'. (Inr (Some creds'), []))"

text \<open>The error \<open>register\<close> throws when \<open>create\<close> resolves to no credential.\<close>

definition creation_failed :: jserror where
  "creation_failed =
     Thrown Error (js ''Failed to create credential (navigator.credentials.create)'')"

text \<open>The \<open>try\<close> block of \<open>register\<close>.\<close>

definition register_try :: "Env \<Rightarrow> Client \<Rightarrow> jsstring \<Rightarrow> jsstring \<Rightarrow> jsvalue run" where
  "register_try env this token credentialNickname =
     and_then (registerBegin env this token) (\<lambda>registration.
     and_then (coerceToArrayBuffer (challenge (BeginResponse.data registration))) (\<lambda>challenge_buffer.
     and_then (coerceToArrayBuffer (user_id (user (BeginResponse.data registration)))) (\<lambda>user_buffer.
     and_then (coerce_optional_ids (excludeCredentials (BeginResponse.data registration))) (\<lambda>excluded.
     (let publicKey = (BeginResponse.data registration)
            \<lparr>challenge := JSUint8Array challenge_buffer,
             user := (user (BeginResponse.data registration))\<lparr>user_id := JSUint8Array user_buffer\<rparr>,
             excludeCredentials := excluded\<rparr>
      in
      and_then (credentials_create env publicKey, [CredentialsCreate publicKey]) (\<lambda>credential.
      if credential = None then (Inl creation_failed, [])
      else
        and_then (registerComplete env this credential (sessionId registration) credentialNickname)
          (\<lambda>completed. (Inr JSUndefined, []))))))))"

text \<open>
  What a public operation leaves behind: the value its promise resolves to or the error
  it rejects with, the client object afterwards, and the trace.
\<close>

record 'a Outcome =
  result :: "jserror + 'a"
  client :: Client
  trace :: "event list"

text \<open>The errors the two \<open>catch\<close> blocks throw.\<close>

definition register_failed :: "jserror \<Rightarrow> jserror" where
  "register_failed error = Thrown Error (js ''Passwordless register failed: '' @ message error)"

definition signin_failed :: "jserror \<Rightarrow> jserror" where
  "signin_failed error = Thrown Error (js ''Passwordless signin failed: '' @ message error)"

text \<open>
  \<open>register\<close>: the guard stands before the \<open>try\<close>; the \<open>catch\<close> logs what was thrown
  and throws the error of the ceremony.  The promise of \<open>register\<close> resolves to
  \<open>undefined\<close>.
\<close>

definition register :: "Env \<Rightarrow> Client \<Rightarrow> jsstring \<Rightarrow> jsstring \<Rightarrow> jsvalue Outcome" where
  "register env this token credentialNickname =
     (case assertBrowserSupported env of
        (Inl unsupported, out) \<Rightarrow> \<lparr>result = Inl unsupported, client = this, trace = out\<rparr>
      | (Inr u, out) \<Rightarrow>
          (case register_try env this token credentialNickname of
             (Inl error, out') \<Rightarrow>
               \<lparr>result = Inl (register_failed error),
                client = this,
                trace = out @ out' @ [ConsoleError error]\<rparr>
           | (Inr v, out') \<Rightarrow> \<lparr>result = Inr v, client = this, trace = out @ out'\<rparr>))"

definition signinBegin :: "Env \<Rightarrow> Client \<Rightarrow> SigninMethod \<Rightarrow> RequestOptions BeginResponse run" where
  "signinBegin env this signinMethod =
     (let request =
        \<lparr>url = apiUrl (config this) @ js ''/signin/begin'',
         method = js ''POST'',
         headers = createHeaders this,
         body = JSON_stringify
           [(js ''userId'', (case userId signinMethod of Some u \<Rightarrow> JSString u | None \<Rightarrow> JSUndefined)),
            (js ''alias'', (case alias signinMethod of Some a \<Rightarrow> JSString a | None \<Rightarrow> JSUndefined)),
            (js ''RPID'', JSString (rpid (config this))),
            (js ''Origin'', JSString (origin (config this)))]\<rparr>
      in (signin_begin_json env request, [Fetch request]))"

definition signinComplete ::
  "Env \<Rightarrow> Client \<Rightarrow> PublicKeyCredential option \<Rightarrow> jsstring \<Rightarrow> SigninCompleteResponse run" where
  "signinComplete env this credential sessionId' =
     (case credential of
        None \<Rightarrow> (Inl null_member_read, [])
      | Some cred \<Rightarrow>
          (let assertionResponse = response cred in
           and_then (coerceToBase64Url (new_Uint8Array (Some (rawId cred)))) (\<lambda>rawId_text.
           and_then (coerceToBase64Url (new_Uint8Array (authenticatorData assertionResponse))) (\<lambda>authenticatorData_text.
           and_then (coerceToBase64Url (new_Uint8Array (clientDataJSON assertionResponse))) (\<lambda>clientData_text.
           and_then (coerceToBase64Url (new_Uint8Array (signature assertionResponse))) (\<lambda>signature_text.
           (let request =
              \<lparr>url = apiUrl (config this) @ js ''/signin/complete'',
               method = js ''POST'',
               headers = createHeaders this,
               body = JSON_stringify
                 [(js ''sessionId'', JSString sessionId'),
                  (js ''response'', JSObject
                     [(js ''id'', JSString (credential_id cred)),
                      (js ''rawId'', JSString rawId_text),
                      (js ''type'', JSString (type cred)),
                      (js ''extensions'', JSObject (clientExtensionResults cred)),
                      (js ''response'', JSObject
                         [(js ''authenticatorData'', JSString authenticatorData_text),
                          (js ''clientDataJson'', JSString clientData_text),
                          (js ''signature'', JSString signature_text)])]),
                  (js ''RPID'', JSString (rpid (config this))),
                  (js ''Origin'', JSString (origin (config this)))]\<rparr>
            in (signin_complete_json env request, [Fetch request]))))))))"

text \<open>The \<open>try\<close> block of \<open>signin\<close>; unlike \<open>register\<close> it does not test the credential.\<close>

definition signin_try :: "Env \<Rightarrow> Client \<Rightarrow> SigninMethod \<Rightarrow> jsstring run" where
  "signin_try env this signinMethod =
     and_then (signinBegin env this signinMethod) (\<lambda>signin.
     and_then (coerceToArrayBuffer (challenge (BeginResponse.data signin))) (\<lambda>challenge_buffer.
     and_then (coerce_optional_ids (allowCredentials (BeginResponse.data signin))) (\<lambda>allowed.
     (let publicKey = (BeginResponse.data signin)
            \<lparr>challenge := JSUint8Array challenge_buffer,
             allowCredentials := allowed\<rparr>
      in
      and_then (credentials_get env publicKey, [CredentialsGet publicKey]) (\<lambda>credential.
      and_then (signinComplete env this credential (sessionId signin)) (\<lambda>response.
      (Inr (SigninCompleteResponse.data response), [])))))))"

definition signin :: "Env \<Rightarrow> Client \<Rightarrow> SigninMethod \<Rightarrow> jsstring Outcome" where
  "signin env this signinMethod =
     (case assertBrowserSupported env of
        (Inl unsupported, out) \<Rightarrow> \<lparr>result = Inl unsupported, client = this, trace = out\<rparr>
      | (Inr u, out) \<Rightarrow>
          (case signin_try env this signinMethod of
             (Inl error, out') \<Rightarrow>
               \<lparr>result = Inl (signin_failed error),
                client = this,
                trace = out @ out' @ [ConsoleError error]\<rparr>
           | (Inr v, out') \<Rightarrow> \<lparr>result = Inr v, client = this, trace = out @ out'\<rparr>))"

definition signinWithId :: "Env \<Rightarrow> Client \<Rightarrow> jsstring \<Rightarrow> jsstring Outcome" where
  "signinWithId env this user_id_text = signin env this \<lparr>userId = Some user_id_text, alias = None\<rparr>"

definition signinWithAlias :: "Env \<Rightarrow> Client \<Rightarrow> jsstring \<Rightarrow> jsstring Outcome" where
  "signinWithAlias env this alias_text = signin env this \<lparr>userId = None, alias = Some alias_text\<rparr>"

section \<open>Reading requests\<close>

text \<open>
  Reading a member of an object (\<open>undefined\<close> when it has none), used to say what a
  request body holds.
\<close>

definition member :: "(jsstring \<times> jsvalue) list \<Rightarrow> jsstring \<Rightarrow> jsvalue" where
  "member members k = (case map_of members k of Some v \<Rightarrow> v | None \<Rightarrow> JSUndefined)"


text \<open>
  The two requests of a registration, written out (\<open>registerBegin_eq\<close> and
  \<open>registerComplete_Some\<close> below show that these are the requests the client sends).
\<close>

definition register_begin_request :: "Client \<Rightarrow> jsstring \<Rightarrow> Request" where
  "register_begin_request this token =
     \<lparr>url = apiUrl (config this) @ js ''/register/begin'',
      method = js ''POST'',
      headers = [(js ''ApiKey'', apiKey (config this)), (js ''Content-Type'', js ''application/json'')],
      body = [(js ''token'', JSString token),
              (js ''RPID'', JSString (rpid (config this))),
              (js ''Origin'', JSString (origin (config this)))]\<rparr>"

definition register_complete_request ::
  "Client \<Rightarrow> PublicKeyCredential \<Rightarrow> jsstring \<Rightarrow> jsstring \<Rightarrow> Request" where
  "register_complete_request this cred session nickname =
     \<lparr>url = apiUrl (config this) @ js ''/register/complete'',
      method = js ''POST'',
      headers = [(js ''ApiKey'', apiKey (config this)), (js ''Content-Type'', js ''application/json'')],
      body = [(js ''sessionId'', JSString session),
              (js ''response'', JSObject
                 [(js ''id'', JSString (credential_id cred)),
                  (js ''rawId'', JSString (base64url (rawId cred))),
                  (js ''type'', JSString (type cred)),
                  (js ''extensions'', JSObject (clientExtensionResults cred)),
                  (js ''response'', JSObject
                     [(js ''AttestationObject'', JSString
                         (base64url (case attestationObject (response cred) of Some b \<Rightarrow> b | None \<Rightarrow> []))),
                      (js ''clientDataJson'', JSString
                         (base64url (case clientDataJSON (response cred) of Some b \<Rightarrow> b | None \<Rightarrow> [])))])]),
              (js ''nickname'', JSString nickname),
              (js ''RPID'', JSString (rpid (config this))),
              (js ''Origin'', JSString (origin (config this)))]\<rparr>"

text \<open>
  The two requests of a sign-in.  In the first, \<open>JSON.stringify\<close> has dropped the
  selector that is \<open>undefined\<close> (\<open>signinBegin_eq\<close> below).
\<close>

definition signin_begin_request :: "Client \<Rightarrow> SigninMethod \<Rightarrow> Request" where
  "signin_begin_request this signinMethod =
     \<lparr>url = apiUrl (config this) @ js ''/signin/begin'',
      method = js ''POST'',
      headers = [(js ''ApiKey'', apiKey (config this)), (js ''Content-Type'', js ''application/json'')],
      body =
        (case userId signinMethod of Some u \<Rightarrow> [(js ''userId'', JSString u)] | None \<Rightarrow> []) @
        (case alias signinMethod of Some a \<Rightarrow> [(js ''alias'', JSString a)] | None \<Rightarrow> []) @
        [(js ''RPID'', JSString (rpid (config this))),
         (js ''Origin'', JSString (origin (config this)))]\<rparr>"

definition signin_complete_request :: "Client \<Rightarrow> PublicKeyCredential \<Rightarrow> jsstring \<Rightarrow> Request" where
  "signin_complete_request this cred session =
     \<lparr>url = apiUrl (config this) @ js ''/signin/complete'',
      method = js ''POST'',
      headers = [(js ''ApiKey'', apiKey (config this)), (js ''Content-Type'', js ''application/json'')],
      body = [(js ''sessionId'', JSString session),
              (js ''response'', JSObject
                 [(js ''id'', JSString (credential_id cred)),
                  (js ''rawId'', JSString (base64url (rawId cred))),
                  (js ''type'', JSString (type cred)),
                  (js ''extensions'', JSObject (clientExtensionResults cred)),
                  (js ''response'', JSObject
                     [(js ''authenticatorData'', JSString
                         (base64url (case authenticatorData (response cred) of Some b \<Rightarrow> b | None \<Rightarrow> []))),
                      (js ''clientDataJson'', JSString
                         (base64url (case clientDataJSON (response cred) of Some b \<Rightarrow> b | None \<Rightarrow> []))),
                      (js ''signature'', JSString
                         (base64url (case signature (response cred) of Some b \<Rightarrow> b | None \<Rightarrow> [])))])]),
              (js ''RPID'', JSString (rpid (config this))),
              (js ''Origin'', JSString (origin (config this)))]\<rparr>"

section \<open>A concrete environment\<close>

text \<open>
  A backend that answers every request and a platform that returns a credential, used
  to run the ceremonies on concrete inputs.
\<close>

definition example_attestation :: PublicKeyCredential where
  "example_attestation =
     \<lparr>credential_id = js ''AQI'', rawId = [1, 2], type = js ''public-key'',
      clientExtensionResults = [], response = AttestationResponse [5] [6]\<rparr>"

definition example_assertion :: PublicKeyCredential where
  "example_assertion =
     \<lparr>credential_id = js ''AQI'', rawId = [1, 2], type = js ''public-key'',
      clientExtensionResults = [], response = AssertionResponse [5] [6] [7]\<rparr>"

definition example_registration :: "CreationOptions BeginResponse" where
  "example_registration =
     \<lparr>sessionId = js ''s1'',
      data = \<lparr>challenge = JSString (js ''AQID''),
              user = \<lparr>user_id = JSString (js ''dTE'')\<rparr>,
              excludeCredentials = Some [\<lparr>id' = JSString (js ''AQ'')\<rparr>]\<rparr>\<rparr>"

definition example_env :: Env where
  "example_env =
     \<lparr>window_PublicKeyCredential = FunctionBound,
      register_begin_json = (\<lambda>request. Inr example_registration),
      register_complete_json = (\<lambda>request. Inr (JSObject [(js ''ok'', JSBoolean True)])),
      signin_begin_json = (\<lambda>request. Inr
        \<lparr>sessionId = js ''s2'',
         data = \<lparr>challenge = JSString (js ''AQID''), allowCredentials = None\<rparr>\<rparr>),
      signin_complete_json = (\<lambda>request. Inr \<lparr>data = js ''jwt''\<rparr>),
      credentials_create = (\<lambda>publicKey. Inr (Some example_attestation)),
      credentials_get = (\<lambda>publicKey. Inr (Some example_assertion))\<rparr>"

text \<open>The rejection of a platform call the user has dismissed.\<close>

definition not_allowed :: jserror where
  "not_allowed =
     Thrown (DOMException (js ''NotAllowedError''))
       (js ''The operation either timed out or was not allowed.'')"

definition example_client :: Client where
  "example_client =
     new_Client (js ''https://a.example'') (js ''a.example'')
       \<lparr>arg_apiUrl = None, arg_apiKey = js ''k'', arg_origin = None, arg_rpid = None\<rparr>"

section \<open>Properties of the transcoder\<close>

subsection \<open>The alphabet and the byte conversions\<close>

lemma b64_value_char: "v < 64 \<Longrightarrow> b64_value (b64_char v) = Some v"
  by (auto simp: b64_value_def b64_char_def Let_def unat_of_nat)

lemma b64_value_Some_props:
  assumes "b64_value c = Some v"
  shows "v < 64" and "c \<noteq> 45" and "c \<noteq> 95" and "c \<noteq> 61" and "\<not> ascii_whitespace c"
  using assms
  by (auto simp: b64_value_def Let_def ascii_whitespace_def split: if_splits)

lemma byte_roundtrip: "ucast (ucast (b :: byte) :: code_unit) = b"
  by (simp add: ucast_up_ucast_id is_up)

lemma byte_code_unit_le: "unat (ucast (b :: byte) :: code_unit) \<le> 255"
proof -
  have "unat (ucast b :: code_unit) = unat b"
  proof -
    have "unat b < 2 ^ 16" using unsigned_less [of b, where ?'a = nat] by simp
    then show ?thesis by (simp add: unsigned_ucast_eq take_bit_nat_eq_self)
  qed
  moreover have "unat b < 256" using unsigned_less [of b, where ?'a = nat] by simp
  ultimately show ?thesis by simp
qed

lemma byte_lt_256: "unat (b :: byte) < 256"
  using unsigned_less [of b, where ?'a = nat] by simp

lemma group1_bound: "(a::nat) < 256 \<Longrightarrow> a div 4 < 64" by simp
lemma group2_bound: "(a::nat) < 256 \<Longrightarrow> b < 256 \<Longrightarrow> a mod 4 * 16 + b div 16 < 64"
proof -
  assume "b < 256"
  then have "b div 16 < 16" by simp
  moreover have "a mod 4 < 4" by simp
  ultimately show ?thesis by linarith
qed
lemma group3_bound: "(b::nat) < 256 \<Longrightarrow> c < 256 \<Longrightarrow> b mod 16 * 4 + c div 64 < 64"
proof -
  assume "c < 256"
  then have "c div 64 < 4" by simp
  moreover have "b mod 16 < 16" by simp
  ultimately show ?thesis by linarith
qed
lemma group3_rest_bound: "(b::nat) mod 16 * 4 < 64"
proof -
  have "b mod 16 < 16" by simp
  then show ?thesis by linarith
qed
lemma group2_rest_bound: "(a::nat) mod 4 * 16 < 64"
proof -
  have "a mod 4 < 4" by simp
  then show ?thesis by linarith
qed

lemma byte1_restored: "(b::nat) < 256 \<Longrightarrow> a div 4 * 4 + (a mod 4 * 16 + b div 16) div 16 = a"
proof -
  assume "b < 256"
  then have "b div 16 < 16" by simp
  then have "(a mod 4 * 16 + b div 16) div 16 = a mod 4" by simp
  then show ?thesis by simp
qed
lemma byte2_restored: "(b::nat) < 256 \<Longrightarrow> c < 256 \<Longrightarrow>
  (a mod 4 * 16 + b div 16) mod 16 * 16 + (b mod 16 * 4 + c div 64) div 4 = b"
proof -
  assume "b < 256" "c < 256"
  then have "b div 16 < 16" "c div 64 < 4" by simp_all
  then have "(a mod 4 * 16 + b div 16) mod 16 = b div 16"
    "(b mod 16 * 4 + c div 64) div 4 = b mod 16" by simp_all
  then show ?thesis by simp
qed
lemma byte3_restored: "(c::nat) < 256 \<Longrightarrow> (b mod 16 * 4 + c div 64) mod 4 * 64 + c mod 64 = c"
proof -
  assume "c < 256"
  then have "c div 64 < 4" by simp
  then have "(b mod 16 * 4 + c div 64) mod 4 = c div 64" by simp
  then show ?thesis by simp
qed
lemma byte2_rest_restored: "(b::nat) < 256 \<Longrightarrow>
  (a mod 4 * 16 + b div 16) mod 16 * 16 + (b mod 16 * 4) div 4 = b"
proof -
  assume "b < 256"
  then have "b div 16 < 16" by simp
  then have "(a mod 4 * 16 + b div 16) mod 16 = b div 16" by simp
  then show ?thesis by simp
qed
lemma byte1_rest_restored: "a div 4 * 4 + (a mod 4 * 16) div 16 = (a::nat)"
  by simp

lemma b64_groups_bound: "\<forall>v \<in> set (b64_groups bs). v < 64"
proof (induction bs rule: b64_groups.induct)
  case (1 a b c rest)
  then show ?case
    using byte_lt_256 [of a] byte_lt_256 [of b] byte_lt_256 [of c]
    by (simp add: group1_bound group2_bound group3_bound)
next
  case (2 a b)
  show ?case
    using byte_lt_256 [of a] byte_lt_256 [of b] by (simp add: group1_bound group2_bound group3_rest_bound)
next
  case (3 a)
  show ?case
    using byte_lt_256 [of a] by (simp add: group1_bound group2_rest_bound)
next
  case 4
  show ?case by simp
qed

lemma b64_groups_length: "length (b64_groups bs) mod 4 \<noteq> 1"
  by (induction bs rule: b64_groups.induct) simp_all

lemma b64_bytes_groups: "b64_bytes (b64_groups bs) = map unat bs"
proof (induction bs rule: b64_groups.induct)
  case (1 a b c rest)
  then show ?case
    using byte_lt_256 [of a] byte_lt_256 [of b] byte_lt_256 [of c]
    by (simp add: byte1_restored byte2_restored byte3_restored)
next
  case (2 a b)
  show ?case
    using byte_lt_256 [of a] byte_lt_256 [of b] by (simp add: byte1_restored byte2_rest_restored)
next
  case (3 a)
  show ?case by (simp add: byte1_rest_restored)
next
  case 4
  show ?case by simp
qed

lemma fill_bytes_eq:
  "i \<le> length string \<Longrightarrow> length bytes = length string \<Longrightarrow>
   fill_bytes string i bytes = take i bytes @ map ucast (drop i string)"
proof (induction string i bytes rule: fill_bytes.induct)
  case (1 string i bytes)
  show ?case
  proof (cases "i < length string")
    case True
    have "fill_bytes string i bytes = fill_bytes string (Suc i) (bytes[i := ucast (string ! i)])"
      using True by (subst fill_bytes.simps) simp
    also have "\<dots> = take (Suc i) (bytes[i := ucast (string ! i)]) @ map ucast (drop (Suc i) string)"
      using "1.IH" [OF True] True "1.prems" by (simp del: fill_bytes.simps)
    also have "\<dots> = take i bytes @ map ucast (drop i string)"
      using True "1.prems"
      by (simp add: take_Suc_conv_app_nth Cons_nth_drop_Suc [symmetric] del: fill_bytes.simps)
    finally show ?thesis .
  next
    case False
    with "1.prems" show ?thesis by (subst fill_bytes.simps) simp
  qed
qed

lemma fill_bytes_all:
  "fill_bytes string 0 (replicate (length string) 0) = map ucast string"
  by (simp add: fill_bytes_eq del: fill_bytes.simps)

lemma append_chars_eq:
  "i \<le> length uint8Array \<Longrightarrow>
   append_chars uint8Array i string = string @ map ucast (drop i uint8Array)"
proof (induction uint8Array i string rule: append_chars.induct)
  case (1 uint8Array i string)
  show ?case
  proof (cases "i < length uint8Array")
    case True
    have "append_chars uint8Array i string =
          append_chars uint8Array (Suc i) (string @ [ucast (uint8Array ! i)])"
      using True by (subst append_chars.simps) simp
    then show ?thesis
      using "1.IH" [OF True] True
      by (simp add: Cons_nth_drop_Suc [symmetric] del: append_chars.simps)
  next
    case False
    with "1.prems" show ?thesis by (subst append_chars.simps) simp
  qed
qed

lemma append_chars_all: "append_chars uint8Array 0 [] = map ucast uint8Array"
  by (simp add: append_chars_eq del: append_chars.simps)

lemma strip_padding_id: "61 \<notin> set d \<Longrightarrow> strip_padding d = d"
proof -
  assume a: "61 \<notin> set d"
  have "drop (length d - 2) d \<noteq> [61, 61]"
  proof
    assume "drop (length d - 2) d = [61, 61]"
    then have "61 \<in> set (drop (length d - 2) d)" by simp
    with a show False using set_drop_subset [of "length d - 2" d] by blast
  qed
  moreover have "drop (length d - 1) d \<noteq> [61]"
  proof
    assume "drop (length d - 1) d = [61]"
    then have "61 \<in> set (drop (length d - 1) d)" by simp
    with a show False using set_drop_subset [of "length d - 1" d] by blast
  qed
  ultimately show ?thesis by (simp add: strip_padding_def)
qed

lemma b64_char_neq:
  assumes "v < 64"
  shows "b64_char v \<noteq> 61" and "b64_char v \<noteq> 45" and "b64_char v \<noteq> 95"
  using b64_value_Some_props [OF b64_value_char [OF assms]] by auto

lemma b64_values_chars:
  "\<forall>v \<in> set gs. v < 64 \<Longrightarrow> b64_values (map b64_char gs) = Some gs"
  by (induction gs) (simp_all add: b64_value_char)

lemma atob_groups:
  assumes "\<forall>v \<in> set gs. v < 64" and "length gs mod 4 \<noteq> 1"
  shows "atob (map b64_char gs) = Inr (map of_nat (b64_bytes gs))"
proof -
  let ?d = "map b64_char gs"
  have ws: "filter (\<lambda>c. \<not> ascii_whitespace c) ?d = ?d"
  proof (rule filter_True, clarify)
    fix c
    assume "c \<in> set ?d" and w: "ascii_whitespace c"
    then obtain v where "v < 64" and "c = b64_char v" using assms(1) by auto
    then have "b64_value c = Some v" by (simp add: b64_value_char)
    then have "\<not> ascii_whitespace c" by (rule b64_value_Some_props(5))
    with w show False by simp
  qed
  have "61 \<notin> set ?d"
    using assms(1) b64_char_neq(1) by fastforce
  then have sp: "strip_padding ?d = ?d" by (rule strip_padding_id)
  show ?thesis
    using assms(2) by (simp add: atob_def ws sp b64_values_chars [OF assms(1)])
qed

lemma btoa_bytes:
  "btoa (map ucast (bs :: byte list)) =
     Inr (map b64_char (b64_groups bs) @ b64_padding (length bs))"
proof -
  have "\<not> list_ex (\<lambda>c. 255 < unat c) (map ucast bs :: jsstring)"
    using byte_code_unit_le by (auto simp: list_ex_iff not_less)
  moreover have "map ucast (map ucast bs :: jsstring) = bs"
    by (simp add: map_idI byte_roundtrip)
  ultimately show ?thesis by (simp add: btoa_def)
qed

lemma strip_trailing_equals_append:
  "61 \<notin> set xs \<Longrightarrow> strip_trailing_equals (xs @ replicate k 61) = xs"
proof -
  assume a: "61 \<notin> set xs"
  have "dropWhile (\<lambda>c. c = 61) (replicate k (61 :: code_unit) @ rev xs) = dropWhile (\<lambda>c. c = 61) (rev xs)"
    by (simp add: dropWhile_append)
  also have "\<dots> = rev xs"
  proof (cases "rev xs")
    case Nil
    then show ?thesis by simp
  next
    case (Cons y ys)
    then have "y \<in> set (rev xs)" by simp
    with a have "y \<noteq> 61" by auto
    with Cons show ?thesis by simp
  qed
  finally show ?thesis by (simp add: strip_trailing_equals_def)
qed

lemma replace_all_replicate:
  "x \<noteq> c \<Longrightarrow> replace_all x y (replicate k c) = replicate k c"
  by (simp add: replace_all_def)

lemma replace_all_append:
  "replace_all x y (s @ t) = replace_all x y s @ replace_all x y t"
  by (simp add: replace_all_def)

lemma base64ToBase64Url_padded:
  assumes "61 \<notin> set chars"
  shows "base64ToBase64Url (chars @ b64_padding n) = replace_all 47 95 (replace_all 43 45 chars)"
proof -
  have "61 \<notin> set (replace_all 47 95 (replace_all 43 45 chars))"
    using assms by (auto simp: replace_all_def)
  then show ?thesis
    by (simp add: base64ToBase64Url_def b64_padding_def replace_all_append
        replace_all_replicate strip_trailing_equals_append)
qed

lemma base64UrlToBase64_inverse:
  assumes "45 \<notin> set chars" and "95 \<notin> set chars"
  shows "base64UrlToBase64 (replace_all 47 95 (replace_all 43 45 chars)) = chars"
  using assms by (auto simp: base64UrlToBase64_def replace_all_def intro!: map_idI)

lemma coerceToBase64Url_bytes:
  assumes "toUint8Array v = (Inr bs, out)"
  shows "coerceToBase64Url v = (Inr (base64url bs), out)"
proof -
  have "61 \<notin> set (map b64_char (b64_groups bs))"
    using b64_groups_bound [of bs] b64_char_neq(1) by fastforce
  then show ?thesis
    using assms
    by (simp add: coerceToBase64Url_def append_chars_all btoa_bytes
        base64ToBase64Url_padded base64url_def del: append_chars.simps)
qed

lemma coerceToArrayBuffer_base64url:
  "coerceToArrayBuffer (JSString (base64url bs)) = (Inr bs, [])"
proof -
  let ?body = "map b64_char (b64_groups bs)"
  let ?string = "map of_nat (map unat bs) :: jsstring"
  have "45 \<notin> set ?body" "95 \<notin> set ?body"
    using b64_groups_bound [of bs] b64_char_neq(2,3) by fastforce+
  then have url: "base64UrlToBase64 (base64url bs) = ?body"
    unfolding base64url_def by (rule base64UrlToBase64_inverse)
  have dec: "atob ?body = Inr ?string"
    using atob_groups [OF b64_groups_bound b64_groups_length, of bs]
    by (simp only: b64_bytes_groups)
  have "map ucast ?string = bs"
    unfolding map_map by (rule map_idI) (simp add: byte_roundtrip)
  then have "fill_bytes ?string 0 (replicate (length ?string) 0) = bs"
    by (simp only: fill_bytes_all)
  then show ?thesis
    unfolding coerceToArrayBuffer_def by (simp only: jsvalue.case url dec sum.case)
qed

section \<open>Properties of the ceremonies\<close>

subsection \<open>Sequencing, requests and the transcoding of options\<close>

lemma and_then_Inl [simp]: "and_then (Inl e, t) f = (Inl e, t)"
  by (simp add: and_then_def)

lemma and_then_Inr [simp]: "and_then (Inr a, t) f = (fst (f a), t @ snd (f a))"
  by (simp add: and_then_def split: prod.splits)

lemma and_then_eq_Inr:
  "and_then m f = (Inr b, t) \<longleftrightarrow>
     (\<exists>a t1 t2. m = (Inr a, t1) \<and> f a = (Inr b, t2) \<and> t = t1 @ t2)"
  by (cases m; cases "fst m") (auto simp: and_then_def split: prod.splits)

lemma and_then_events:
  assumes "\<forall>ev \<in> set (snd m). P ev"
    and "\<And>a. fst m = Inr a \<Longrightarrow> \<forall>ev \<in> set (snd (f a)). P ev"
  shows "\<forall>ev \<in> set (snd (and_then m f)). P ev"
  using assms by (cases m; cases "fst m") (auto simp: and_then_def split: prod.splits)

lemma coerceToBase64Url_Uint8Array:
  "coerceToBase64Url (JSUint8Array b) = (Inr (base64url b), [])"
  by (rule coerceToBase64Url_bytes) (simp add: toUint8Array_def)

lemma new_Uint8Array_encodes:
  "coerceToBase64Url (new_Uint8Array x) =
     (Inr (base64url (case x of Some b \<Rightarrow> b | None \<Rightarrow> [])), [])"
  by (cases x) (simp_all add: coerceToBase64Url_bytes toUint8Array_def)

lemma registerBegin_eq:
  "registerBegin env this token =
     (register_begin_json env (register_begin_request this token),
      [Fetch (register_begin_request this token)])"
  by (simp add: registerBegin_def register_begin_request_def createHeaders_def
      JSON_stringify_def Let_def)

lemma registerComplete_Some:
  "registerComplete env this (Some cred) session nickname =
     (register_complete_json env (register_complete_request this cred session nickname),
      [Fetch (register_complete_request this cred session nickname)])"
  by (simp add: registerComplete_def register_complete_request_def createHeaders_def
      JSON_stringify_def Let_def new_Uint8Array_encodes coerceToBase64Url_Uint8Array)

lemma coerceToArrayBuffer_cases:
  "(\<exists>b. coerceToArrayBuffer v = (Inr b, [])) \<or>
   (\<exists>e. coerceToArrayBuffer v = (Inl e, [])) \<or>
   (\<exists>e m. coerceToArrayBuffer v = (Inl e, [ConsoleWarn m v]))"
  by (cases v) (auto simp: coerceToArrayBuffer_def split: sum.splits)

lemma coerceToArrayBuffer_Inr: "coerceToArrayBuffer v = (Inr b, t) \<Longrightarrow> t = []"
  using coerceToArrayBuffer_cases [of v] by auto

lemma coerceToArrayBuffer_events:
  "\<forall>ev \<in> set (snd (coerceToArrayBuffer v)). \<exists>m x. ev = ConsoleWarn m x"
  using coerceToArrayBuffer_cases [of v] by auto

lemma coerce_ids_Inr: "coerce_ids creds = (Inr creds', t) \<Longrightarrow> t = []"
proof (induction creds arbitrary: creds' t)
  case Nil
  then show ?case by simp
next
  case (Cons cred creds)
  from Cons.prems obtain buffer t1 t2 where
    a: "coerceToArrayBuffer (id' cred) = (Inr buffer, t1)"
    and b: "and_then (coerce_ids creds)
          (\<lambda>creds'. (Inr (cred\<lparr>id' := JSUint8Array buffer\<rparr> # creds'), [])) = (Inr creds', t2)"
    and t: "t = t1 @ t2"
    by (auto simp: and_then_eq_Inr)
  from b obtain cs t3 where "coerce_ids creds = (Inr cs, t3)" and "t2 = t3"
    by (auto simp: and_then_eq_Inr)
  with Cons.IH have "t2 = []" by simp
  with a t show ?case using coerceToArrayBuffer_Inr by simp
qed

lemma coerce_ids_events:
  "\<forall>ev \<in> set (snd (coerce_ids creds)). \<exists>m x. ev = ConsoleWarn m x"
proof (induction creds)
  case Nil
  show ?case by simp
next
  case (Cons cred creds)
  show ?case
    unfolding coerce_ids.simps
    by (intro and_then_events coerceToArrayBuffer_events Cons.IH) simp
qed

lemma coerce_optional_ids_Inr: "coerce_optional_ids creds = (Inr creds', t) \<Longrightarrow> t = []"
  by (cases creds) (auto simp: and_then_eq_Inr dest: coerce_ids_Inr)

lemma coerce_optional_ids_events:
  "\<forall>ev \<in> set (snd (coerce_optional_ids creds)). \<exists>m x. ev = ConsoleWarn m x"
proof (cases creds)
  case None
  then show ?thesis by simp
next
  case (Some cs)
  show ?thesis
    unfolding Some coerce_optional_ids.simps
    by (intro and_then_events coerce_ids_events) simp
qed

subsection \<open>The shape of a registration\<close>

lemma register_try_cases:
  fixes env this token nick
  defines "breq \<equiv> register_begin_request this token"
  defines "run \<equiv> register_try env this token nick"
  obtains
    (early) e ws where
      "run = (Inl e, Fetch breq # ws)"
      "\<forall>ev \<in> set ws. \<exists>m x. ev = ConsoleWarn m x"
  | (rejected) registration cb opts e where
      "register_begin_json env breq = Inr registration"
      "coerceToArrayBuffer (challenge (BeginResponse.data registration)) = (Inr cb, [])"
      "challenge opts = JSUint8Array cb"
      "credentials_create env opts = Inl e"
      "run = (Inl e, [Fetch breq, CredentialsCreate opts])"
  | (no_credential) registration cb opts where
      "register_begin_json env breq = Inr registration"
      "coerceToArrayBuffer (challenge (BeginResponse.data registration)) = (Inr cb, [])"
      "challenge opts = JSUint8Array cb"
      "credentials_create env opts = Inr None"
      "run = (Inl creation_failed, [Fetch breq, CredentialsCreate opts])"
  | (completing) registration cb opts cred creq where
      "register_begin_json env breq = Inr registration"
      "coerceToArrayBuffer (challenge (BeginResponse.data registration)) = (Inr cb, [])"
      "challenge opts = JSUint8Array cb"
      "credentials_create env opts = Inr (Some cred)"
      "creq = register_complete_request this cred (sessionId registration) nick"
      "run = ((case register_complete_json env creq of
                 Inl e \<Rightarrow> Inl e | Inr resp \<Rightarrow> Inr JSUndefined),
              [Fetch breq, CredentialsCreate opts, Fetch creq])"
proof (cases "register_begin_json env breq")
  case (Inl e)
  then have "run = (Inl e, Fetch breq # [])"
    by (simp add: run_def breq_def register_try_def registerBegin_eq)
  then show thesis by (rule early) simp
next
  case began: (Inr registration)
  let ?data = "BeginResponse.data registration"
  obtain byte1_restored t1 where c1: "coerceToArrayBuffer (challenge ?data) = (byte1_restored, t1)" by force
  show thesis
  proof (cases byte1_restored)
    case (Inl e)
    with c1 began have "run = (Inl e, Fetch breq # t1)"
      by (simp add: run_def breq_def register_try_def registerBegin_eq)
    moreover have "\<forall>ev \<in> set t1. \<exists>m x. ev = ConsoleWarn m x"
      using coerceToArrayBuffer_events [of "challenge ?data"] c1 by simp
    ultimately show thesis by (rule early)
  next
    case byte1_restored: (Inr cb)
    with c1 have t1: "t1 = []" by (auto dest: coerceToArrayBuffer_Inr)
    from c1 byte1_restored t1 have c1': "coerceToArrayBuffer (challenge ?data) = (Inr cb, [])" by simp
    obtain byte2_restored t2 where c2: "coerceToArrayBuffer (user_id (user ?data)) = (byte2_restored, t2)" by force
    show thesis
    proof (cases byte2_restored)
      case (Inl e)
      with c1' c2 began have "run = (Inl e, Fetch breq # t2)"
        by (simp add: run_def breq_def register_try_def registerBegin_eq)
      moreover have "\<forall>ev \<in> set t2. \<exists>m x. ev = ConsoleWarn m x"
        using coerceToArrayBuffer_events [of "user_id (user ?data)"] c2 by simp
      ultimately show thesis by (rule early)
    next
      case byte2_restored: (Inr ub)
      with c2 have t2: "t2 = []" by (auto dest: coerceToArrayBuffer_Inr)
      from c2 byte2_restored t2 have c2': "coerceToArrayBuffer (user_id (user ?data)) = (Inr ub, [])" by simp
      obtain byte3_restored t3 where c3: "coerce_optional_ids (excludeCredentials ?data) = (byte3_restored, t3)" by force
      show thesis
      proof (cases byte3_restored)
        case (Inl e)
        with c1' c2' c3 began have "run = (Inl e, Fetch breq # t3)"
          by (simp add: run_def breq_def register_try_def registerBegin_eq)
        moreover have "\<forall>ev \<in> set t3. \<exists>m x. ev = ConsoleWarn m x"
          using coerce_optional_ids_events [of "excludeCredentials ?data"] c3 by simp
        ultimately show thesis by (rule early)
      next
        case byte3_restored: (Inr excluded)
        with c3 have t3: "t3 = []" by (auto dest: coerce_optional_ids_Inr)
        from c3 byte3_restored t3 have c3': "coerce_optional_ids (excludeCredentials ?data) = (Inr excluded, [])"
          by simp
        define opts where "opts = ?data\<lparr>challenge := JSUint8Array cb,
             user := (user ?data)\<lparr>user_id := JSUint8Array ub\<rparr>,
             excludeCredentials := excluded\<rparr>"
        have ch: "challenge opts = JSUint8Array cb" by (simp add: opts_def)
        have run_eq: "run =
            and_then (Inr registration, [Fetch breq]) (\<lambda>registration.
            and_then (credentials_create env opts, [CredentialsCreate opts]) (\<lambda>credential.
              if credential = None then (Inl creation_failed, [])
              else and_then (registerComplete env this credential (sessionId registration) nick)
                     (\<lambda>completed. (Inr JSUndefined, []))))"
          using c1' c2' c3' began
          by (simp add: run_def breq_def register_try_def registerBegin_eq opts_def Let_def)
        show thesis
        proof (cases "credentials_create env opts")
          case (Inl e)
          then have "run = (Inl e, [Fetch breq, CredentialsCreate opts])"
            by (simp add: run_eq)
          with began c1' ch Inl show thesis by (rule rejected)
        next
          case created: (Inr credential)
          show thesis
          proof (cases credential)
            case None
            with created have "run = (Inl creation_failed, [Fetch breq, CredentialsCreate opts])"
              by (simp add: run_eq)
            with began c1' ch created [unfolded None] show thesis by (rule no_credential)
          next
            case (Some cred)
            let ?creq = "register_complete_request this cred (sessionId registration) nick"
            have "run = ((case register_complete_json env ?creq of
                        Inl e \<Rightarrow> Inl e | Inr resp \<Rightarrow> Inr JSUndefined),
                     [Fetch breq, CredentialsCreate opts, Fetch ?creq])"
              using created Some
              by (cases "register_complete_json env ?creq")
                 (simp_all add: run_eq registerComplete_Some)
            with began c1' ch created [unfolded Some] refl show thesis by (rule completing)
          qed
        qed
      qed
    qed
  qed
qed

subsection \<open>The shape of a sign-in\<close>

lemma signinBegin_eq:
  "signinBegin env this signinMethod =
     (signin_begin_json env (signin_begin_request this signinMethod),
      [Fetch (signin_begin_request this signinMethod)])"
  by (cases "userId signinMethod"; cases "alias signinMethod")
     (simp_all add: signinBegin_def signin_begin_request_def createHeaders_def
      JSON_stringify_def Let_def)

lemma signinComplete_Some:
  "signinComplete env this (Some cred) session =
     (signin_complete_json env (signin_complete_request this cred session),
      [Fetch (signin_complete_request this cred session)])"
  by (simp add: signinComplete_def signin_complete_request_def createHeaders_def
      JSON_stringify_def Let_def new_Uint8Array_encodes coerceToBase64Url_Uint8Array)

lemma signinComplete_None:
  "signinComplete env this None session = (Inl null_member_read, [])"
  by (simp add: signinComplete_def)

lemma signin_try_cases:
  fixes env this signinMethod
  defines "breq \<equiv> signin_begin_request this signinMethod"
  defines "run \<equiv> signin_try env this signinMethod"
  obtains
    (early) e ws where
      "run = (Inl e, Fetch breq # ws)"
      "\<forall>ev \<in> set ws. \<exists>m x. ev = ConsoleWarn m x"
  | (rejected) signin cb opts e where
      "signin_begin_json env breq = Inr signin"
      "coerceToArrayBuffer (challenge (BeginResponse.data signin)) = (Inr cb, [])"
      "challenge opts = JSUint8Array cb"
      "credentials_get env opts = Inl e"
      "run = (Inl e, [Fetch breq, CredentialsGet opts])"
  | (no_credential) signin cb opts where
      "signin_begin_json env breq = Inr signin"
      "coerceToArrayBuffer (challenge (BeginResponse.data signin)) = (Inr cb, [])"
      "challenge opts = JSUint8Array cb"
      "credentials_get env opts = Inr None"
      "run = (Inl null_member_read, [Fetch breq, CredentialsGet opts])"
  | (completing) signin cb opts cred creq where
      "signin_begin_json env breq = Inr signin"
      "coerceToArrayBuffer (challenge (BeginResponse.data signin)) = (Inr cb, [])"
      "challenge opts = JSUint8Array cb"
      "credentials_get env opts = Inr (Some cred)"
      "creq = signin_complete_request this cred (sessionId signin)"
      "run = ((case signin_complete_json env creq of
                 Inl e \<Rightarrow> Inl e | Inr resp \<Rightarrow> Inr (SigninCompleteResponse.data resp)),
              [Fetch breq, CredentialsGet opts, Fetch creq])"
proof (cases "signin_begin_json env breq")
  case (Inl e)
  then have "run = (Inl e, Fetch breq # [])"
    by (simp add: run_def breq_def signin_try_def signinBegin_eq)
  then show thesis by (rule early) simp
next
  case began: (Inr signin)
  let ?data = "BeginResponse.data signin"
  obtain byte1_restored t1 where c1: "coerceToArrayBuffer (challenge ?data) = (byte1_restored, t1)" by force
  show thesis
  proof (cases byte1_restored)
    case (Inl e)
    with c1 began have "run = (Inl e, Fetch breq # t1)"
      by (simp add: run_def breq_def signin_try_def signinBegin_eq)
    moreover have "\<forall>ev \<in> set t1. \<exists>m x. ev = ConsoleWarn m x"
      using coerceToArrayBuffer_events [of "challenge ?data"] c1 by simp
    ultimately show thesis by (rule early)
  next
    case byte1_restored: (Inr cb)
    with c1 have t1: "t1 = []" by (auto dest: coerceToArrayBuffer_Inr)
    from c1 byte1_restored t1 have c1': "coerceToArrayBuffer (challenge ?data) = (Inr cb, [])" by simp
    obtain byte3_restored t3 where c3: "coerce_optional_ids (allowCredentials ?data) = (byte3_restored, t3)" by force
    show thesis
    proof (cases byte3_restored)
      case (Inl e)
      with c1' c3 began have "run = (Inl e, Fetch breq # t3)"
        by (simp add: run_def breq_def signin_try_def signinBegin_eq)
      moreover have "\<forall>ev \<in> set t3. \<exists>m x. ev = ConsoleWarn m x"
        using coerce_optional_ids_events [of "allowCredentials ?data"] c3 by simp
      ultimately show thesis by (rule early)
    next
      case byte3_restored: (Inr allowed)
      with c3 have t3: "t3 = []" by (auto dest: coerce_optional_ids_Inr)
      from c3 byte3_restored t3 have c3': "coerce_optional_ids (allowCredentials ?data) = (Inr allowed, [])"
        by simp
      define opts where "opts = ?data\<lparr>challenge := JSUint8Array cb, allowCredentials := allowed\<rparr>"
      have ch: "challenge opts = JSUint8Array cb" by (simp add: opts_def)
      have run_eq: "run =
          and_then (Inr signin, [Fetch breq]) (\<lambda>signin.
          and_then (credentials_get env opts, [CredentialsGet opts]) (\<lambda>credential.
          and_then (signinComplete env this credential (sessionId signin)) (\<lambda>response.
            (Inr (SigninCompleteResponse.data response), []))))"
        using c1' c3' began
        by (simp add: run_def breq_def signin_try_def signinBegin_eq opts_def Let_def)
      show thesis
      proof (cases "credentials_get env opts")
        case (Inl e)
        then have "run = (Inl e, [Fetch breq, CredentialsGet opts])"
          by (simp add: run_eq)
        with began c1' ch Inl show thesis by (rule rejected)
      next
        case got: (Inr credential)
        show thesis
        proof (cases credential)
          case None
          with got have "run = (Inl null_member_read, [Fetch breq, CredentialsGet opts])"
            by (simp add: run_eq signinComplete_None)
          with began c1' ch got [unfolded None] show thesis by (rule no_credential)
        next
          case (Some cred)
          let ?creq = "signin_complete_request this cred (sessionId signin)"
          have "run = ((case signin_complete_json env ?creq of
                      Inl e \<Rightarrow> Inl e | Inr resp \<Rightarrow> Inr (SigninCompleteResponse.data resp)),
                   [Fetch breq, CredentialsGet opts, Fetch ?creq])"
            using got Some
            by (cases "signin_complete_json env ?creq")
               (simp_all add: run_eq signinComplete_Some)
          with began c1' ch got [unfolded Some] refl show thesis by (rule completing)
        qed
      qed
    qed
  qed
qed

lemma isBrowserSupported_guard:
  "isBrowserSupported env \<Longrightarrow> assertBrowserSupported env = (Inr (), [])"
  "\<not> isBrowserSupported env \<Longrightarrow> assertBrowserSupported env = (Inl unsupported_browser, [])"
  by (simp_all add: assertBrowserSupported_def)

lemma register_supported:
  assumes "isBrowserSupported env"
  shows "register env this token nick =
     (case register_try env this token nick of
        (Inl error, out) \<Rightarrow>
          \<lparr>result = Inl (register_failed error),
           client = this, trace = out @ [ConsoleError error]\<rparr>
      | (Inr v, out) \<Rightarrow> \<lparr>result = Inr v, client = this, trace = out\<rparr>)"
  using assms by (simp add: register_def isBrowserSupported_guard split: prod.splits sum.splits)

lemma signin_supported:
  assumes "isBrowserSupported env"
  shows "signin env this signinMethod =
     (case signin_try env this signinMethod of
        (Inl error, out) \<Rightarrow>
          \<lparr>result = Inl (signin_failed error),
           client = this, trace = out @ [ConsoleError error]\<rparr>
      | (Inr v, out) \<Rightarrow> \<lparr>result = Inr v, client = this, trace = out\<rparr>)"
  using assms by (simp add: signin_def isBrowserSupported_guard split: prod.splits sum.splits)

lemma register_unsupported:
  "\<not> isBrowserSupported env \<Longrightarrow>
   register env this token nick = \<lparr>result = Inl unsupported_browser, client = this, trace = []\<rparr>"
  by (simp add: register_def isBrowserSupported_guard)

lemma signin_unsupported:
  "\<not> isBrowserSupported env \<Longrightarrow>
   signin env this signinMethod = \<lparr>result = Inl unsupported_browser, client = this, trace = []\<rparr>"
  by (simp add: signin_def isBrowserSupported_guard)

lemma request_members:
  "member (body (register_begin_request this token)) (js ''RPID'') = JSString (rpid (config this))"
  "member (body (register_begin_request this token)) (js ''Origin'') = JSString (origin (config this))"
  "member (body (register_complete_request this cred session nick)) (js ''RPID'') = JSString (rpid (config this))"
  "member (body (register_complete_request this cred session nick)) (js ''Origin'') = JSString (origin (config this))"
  "member (body (signin_complete_request this cred session)) (js ''RPID'') = JSString (rpid (config this))"
  "member (body (signin_complete_request this cred session)) (js ''Origin'') = JSString (origin (config this))"
  by (simp_all add: member_def register_begin_request_def register_complete_request_def
      signin_complete_request_def js_def)

lemma signin_begin_members:
  "member (body (signin_begin_request this signinMethod)) (js ''RPID'') = JSString (rpid (config this))"
  "member (body (signin_begin_request this signinMethod)) (js ''Origin'') = JSString (origin (config this))"
  by (cases "userId signinMethod"; cases "alias signinMethod";
      simp add: member_def signin_begin_request_def js_def)+


lemma signin_trace_head:
  assumes "isBrowserSupported env"
  shows "\<exists>rest. trace (signin env this signinMethod) =
           Fetch (signin_begin_request this signinMethod) # rest"
  using signin_try_cases [of env this signinMethod]
proof cases
  case (early e ws)
  then show ?thesis by (simp add: signin_supported [OF assms])
next
  case (rejected signin cb opts e)
  then show ?thesis by (simp add: signin_supported [OF assms])
next
  case (no_credential signin cb opts)
  then show ?thesis by (simp add: signin_supported [OF assms])
next
  case (completing signin cb opts cred creq)
  then show ?thesis
    by (cases "signin_complete_json env creq") (simp_all add: signin_supported [OF assms])
qed

lemma register_outcomes:
  fixes env this token nick
  assumes sup: "isBrowserSupported env"
  defines "breq \<equiv> register_begin_request this token"
  defines "R \<equiv> register env this token nick"
  obtains
    (early) e ws where
      "register_try env this token nick = (Inl e, Fetch breq # ws)"
      "\<forall>ev \<in> set ws. \<exists>m x. ev = ConsoleWarn m x"
      "R = \<lparr>result = Inl (register_failed e), client = this,
            trace = Fetch breq # ws @ [ConsoleError e]\<rparr>"
  | (rejected) registration cb opts e where
      "register_begin_json env breq = Inr registration"
      "coerceToArrayBuffer (challenge (BeginResponse.data registration)) = (Inr cb, [])"
      "challenge opts = JSUint8Array cb"
      "credentials_create env opts = Inl e"
      "register_try env this token nick = (Inl e, [Fetch breq, CredentialsCreate opts])"
      "R = \<lparr>result = Inl (register_failed e), client = this,
            trace = [Fetch breq, CredentialsCreate opts, ConsoleError e]\<rparr>"
  | (no_credential) registration cb opts where
      "register_begin_json env breq = Inr registration"
      "coerceToArrayBuffer (challenge (BeginResponse.data registration)) = (Inr cb, [])"
      "challenge opts = JSUint8Array cb"
      "credentials_create env opts = Inr None"
      "register_try env this token nick =
         (Inl creation_failed, [Fetch breq, CredentialsCreate opts])"
      "R = \<lparr>result = Inl (register_failed creation_failed), client = this,
            trace = [Fetch breq, CredentialsCreate opts, ConsoleError creation_failed]\<rparr>"
  | (complete_failed) registration cb opts cred creq e where
      "register_begin_json env breq = Inr registration"
      "coerceToArrayBuffer (challenge (BeginResponse.data registration)) = (Inr cb, [])"
      "challenge opts = JSUint8Array cb"
      "credentials_create env opts = Inr (Some cred)"
      "creq = register_complete_request this cred (sessionId registration) nick"
      "register_complete_json env creq = Inl e"
      "register_try env this token nick =
         (Inl e, [Fetch breq, CredentialsCreate opts, Fetch creq])"
      "R = \<lparr>result = Inl (register_failed e), client = this,
            trace = [Fetch breq, CredentialsCreate opts, Fetch creq, ConsoleError e]\<rparr>"
  | (completed) registration cb opts cred creq resp where
      "register_begin_json env breq = Inr registration"
      "coerceToArrayBuffer (challenge (BeginResponse.data registration)) = (Inr cb, [])"
      "challenge opts = JSUint8Array cb"
      "credentials_create env opts = Inr (Some cred)"
      "creq = register_complete_request this cred (sessionId registration) nick"
      "register_complete_json env creq = Inr resp"
      "register_try env this token nick =
         (Inr JSUndefined, [Fetch breq, CredentialsCreate opts, Fetch creq])"
      "R = \<lparr>result = Inr JSUndefined, client = this,
            trace = [Fetch breq, CredentialsCreate opts, Fetch creq]\<rparr>"
  using register_try_cases [of env this token nick]
proof cases
  case (early e ws)
  from early(1) have "R = \<lparr>result = Inl (register_failed e), client = this,
            trace = Fetch breq # ws @ [ConsoleError e]\<rparr>"
    by (simp add: R_def breq_def register_supported [OF sup])
  with early show thesis unfolding breq_def [symmetric] by (rule that(1))
next
  case (rejected registration cb opts e)
  from rejected(5) have "R = \<lparr>result = Inl (register_failed e), client = this,
            trace = [Fetch breq, CredentialsCreate opts, ConsoleError e]\<rparr>"
    by (simp add: R_def breq_def register_supported [OF sup])
  with rejected show thesis unfolding breq_def [symmetric] by (rule that(2))
next
  case (no_credential registration cb opts)
  from no_credential(5) have "R = \<lparr>result = Inl (register_failed creation_failed), client = this,
            trace = [Fetch breq, CredentialsCreate opts, ConsoleError creation_failed]\<rparr>"
    by (simp add: R_def breq_def register_supported [OF sup])
  with no_credential show thesis unfolding breq_def [symmetric] by (rule that(3))
next
  case (completing registration cb opts cred creq)
  show thesis
  proof (cases "register_complete_json env creq")
    case (Inl e)
    with completing(6) have t: "register_try env this token nick =
         (Inl e, [Fetch breq, CredentialsCreate opts, Fetch creq])"
      by (simp add: breq_def)
    then have "R = \<lparr>result = Inl (register_failed e), client = this,
            trace = [Fetch breq, CredentialsCreate opts, Fetch creq, ConsoleError e]\<rparr>"
      by (simp add: R_def register_supported [OF sup])
    with completing(1-5) Inl t show thesis unfolding breq_def [symmetric] by (rule that(4))
  next
    case (Inr resp)
    with completing(6) have t: "register_try env this token nick =
         (Inr JSUndefined, [Fetch breq, CredentialsCreate opts, Fetch creq])"
      by (simp add: breq_def)
    then have "R = \<lparr>result = Inr JSUndefined, client = this,
            trace = [Fetch breq, CredentialsCreate opts, Fetch creq]\<rparr>"
      by (simp add: R_def register_supported [OF sup])
    with completing(1-5) Inr t show thesis unfolding breq_def [symmetric] by (rule that(5))
  qed
qed

lemma signin_outcomes:
  fixes env this signinMethod
  assumes sup: "isBrowserSupported env"
  defines "breq \<equiv> signin_begin_request this signinMethod"
  defines "R \<equiv> signin env this signinMethod"
  obtains
    (early) e ws where
      "signin_try env this signinMethod = (Inl e, Fetch breq # ws)"
      "\<forall>ev \<in> set ws. \<exists>m x. ev = ConsoleWarn m x"
      "R = \<lparr>result = Inl (signin_failed e), client = this,
            trace = Fetch breq # ws @ [ConsoleError e]\<rparr>"
  | (rejected) signin cb opts e where
      "signin_begin_json env breq = Inr signin"
      "coerceToArrayBuffer (challenge (BeginResponse.data signin)) = (Inr cb, [])"
      "challenge opts = JSUint8Array cb"
      "credentials_get env opts = Inl e"
      "signin_try env this signinMethod = (Inl e, [Fetch breq, CredentialsGet opts])"
      "R = \<lparr>result = Inl (signin_failed e), client = this,
            trace = [Fetch breq, CredentialsGet opts, ConsoleError e]\<rparr>"
  | (no_credential) signin cb opts where
      "signin_begin_json env breq = Inr signin"
      "coerceToArrayBuffer (challenge (BeginResponse.data signin)) = (Inr cb, [])"
      "challenge opts = JSUint8Array cb"
      "credentials_get env opts = Inr None"
      "signin_try env this signinMethod =
         (Inl null_member_read, [Fetch breq, CredentialsGet opts])"
      "R = \<lparr>result = Inl (signin_failed null_member_read), client = this,
            trace = [Fetch breq, CredentialsGet opts, ConsoleError null_member_read]\<rparr>"
  | (complete_failed) signin cb opts cred creq e where
      "signin_begin_json env breq = Inr signin"
      "coerceToArrayBuffer (challenge (BeginResponse.data signin)) = (Inr cb, [])"
      "challenge opts = JSUint8Array cb"
      "credentials_get env opts = Inr (Some cred)"
      "creq = signin_complete_request this cred (sessionId signin)"
      "signin_complete_json env creq = Inl e"
      "signin_try env this signinMethod =
         (Inl e, [Fetch breq, CredentialsGet opts, Fetch creq])"
      "R = \<lparr>result = Inl (signin_failed e), client = this,
            trace = [Fetch breq, CredentialsGet opts, Fetch creq, ConsoleError e]\<rparr>"
  | (completed) signin cb opts cred creq resp where
      "signin_begin_json env breq = Inr signin"
      "coerceToArrayBuffer (challenge (BeginResponse.data signin)) = (Inr cb, [])"
      "challenge opts = JSUint8Array cb"
      "credentials_get env opts = Inr (Some cred)"
      "creq = signin_complete_request this cred (sessionId signin)"
      "signin_complete_json env creq = Inr resp"
      "signin_try env this signinMethod =
         (Inr (SigninCompleteResponse.data resp), [Fetch breq, CredentialsGet opts, Fetch creq])"
      "R = \<lparr>result = Inr (SigninCompleteResponse.data resp), client = this,
            trace = [Fetch breq, CredentialsGet opts, Fetch creq]\<rparr>"
  using signin_try_cases [of env this signinMethod]
proof cases
  case (early e ws)
  from early(1) have "R = \<lparr>result = Inl (signin_failed e), client = this,
            trace = Fetch breq # ws @ [ConsoleError e]\<rparr>"
    by (simp add: R_def breq_def signin_supported [OF sup])
  with early show thesis unfolding breq_def [symmetric] by (rule that(1))
next
  case (rejected signin cb opts e)
  from rejected(5) have "R = \<lparr>result = Inl (signin_failed e), client = this,
            trace = [Fetch breq, CredentialsGet opts, ConsoleError e]\<rparr>"
    by (simp add: R_def breq_def signin_supported [OF sup])
  with rejected show thesis unfolding breq_def [symmetric] by (rule that(2))
next
  case (no_credential signin cb opts)
  from no_credential(5) have "R = \<lparr>result = Inl (signin_failed null_member_read), client = this,
            trace = [Fetch breq, CredentialsGet opts, ConsoleError null_member_read]\<rparr>"
    by (simp add: R_def breq_def signin_supported [OF sup])
  with no_credential show thesis unfolding breq_def [symmetric] by (rule that(3))
next
  case (completing signin cb opts cred creq)
  show thesis
  proof (cases "signin_complete_json env creq")
    case (Inl e)
    with completing(6) have t: "signin_try env this signinMethod =
         (Inl e, [Fetch breq, CredentialsGet opts, Fetch creq])"
      by (simp add: breq_def)
    then have "R = \<lparr>result = Inl (signin_failed e), client = this,
            trace = [Fetch breq, CredentialsGet opts, Fetch creq, ConsoleError e]\<rparr>"
      by (simp add: R_def signin_supported [OF sup])
    with completing(1-5) Inl t show thesis unfolding breq_def [symmetric] by (rule that(4))
  next
    case (Inr resp)
    with completing(6) have t: "signin_try env this signinMethod =
         (Inr (SigninCompleteResponse.data resp), [Fetch breq, CredentialsGet opts, Fetch creq])"
      by (simp add: breq_def)
    then have "R = \<lparr>result = Inr (SigninCompleteResponse.data resp), client = this,
            trace = [Fetch breq, CredentialsGet opts, Fetch creq]\<rparr>"
      by (simp add: R_def signin_supported [OF sup])
    with completing(1-5) Inr t show thesis unfolding breq_def [symmetric] by (rule that(5))
  qed
qed

lemma not_ConsoleError_warns:
  "\<forall>ev \<in> set ws. \<exists>m x. ev = ConsoleWarn m x \<Longrightarrow> ConsoleError e \<notin> set ws"
  by auto

lemma not_Fetch_warns:
  "\<forall>ev \<in> set ws. \<exists>m x. ev = ConsoleWarn m x \<Longrightarrow> Fetch req \<notin> set ws"
  by auto

lemma register_requests:
  assumes "Fetch req \<in> set (trace (register env this token nick))"
  shows "member (body req) (js ''RPID'') = JSString (rpid (config this)) \<and>
         member (body req) (js ''Origin'') = JSString (origin (config this))"
proof (cases "isBrowserSupported env")
  case False
  with assms show ?thesis by (simp add: register_unsupported)
next
  case True
  from True show ?thesis
  proof (cases rule: register_outcomes [of env this token nick])
    case (early e ws)
    with assms have "req = register_begin_request this token"
      using not_Fetch_warns [OF early(2), of req] by auto
    then show ?thesis by (simp add: request_members)
  next
    case (rejected registration cb opts e)
    with assms have "req = register_begin_request this token" by auto
    then show ?thesis by (simp add: request_members)
  next
    case (no_credential registration cb opts)
    with assms have "req = register_begin_request this token" by auto
    then show ?thesis by (simp add: request_members)
  next
    case (complete_failed registration cb opts cred creq e)
    with assms have "req = register_begin_request this token \<or>
        req = register_complete_request this cred (sessionId registration) nick" by auto
    then show ?thesis by (auto simp: request_members)
  next
    case (completed registration cb opts cred creq resp)
    with assms have "req = register_begin_request this token \<or>
        req = register_complete_request this cred (sessionId registration) nick" by auto
    then show ?thesis by (auto simp: request_members)
  qed
qed

lemma signin_requests:
  assumes "Fetch req \<in> set (trace (signin env this signinMethod))"
  shows "member (body req) (js ''RPID'') = JSString (rpid (config this)) \<and>
         member (body req) (js ''Origin'') = JSString (origin (config this))"
proof (cases "isBrowserSupported env")
  case False
  with assms show ?thesis by (simp add: signin_unsupported)
next
  case True
  from True show ?thesis
  proof (cases rule: signin_outcomes [of env this signinMethod])
    case (early e ws)
    with assms have "req = signin_begin_request this signinMethod"
      using not_Fetch_warns [OF early(2), of req] by auto
    then show ?thesis by (simp add: signin_begin_members)
  next
    case (rejected signin cb opts e)
    with assms have "req = signin_begin_request this signinMethod" by auto
    then show ?thesis by (simp add: signin_begin_members)
  next
    case (no_credential signin cb opts)
    with assms have "req = signin_begin_request this signinMethod" by auto
    then show ?thesis by (simp add: signin_begin_members)
  next
    case (complete_failed signin cb opts cred creq e)
    with assms have "req = signin_begin_request this signinMethod \<or>
        req = signin_complete_request this cred (sessionId signin)" by auto
    then show ?thesis by (auto simp: signin_begin_members request_members)
  next
    case (completed signin cb opts cred creq resp)
    with assms have "req = signin_begin_request this signinMethod \<or>
        req = signin_complete_request this cred (sessionId signin)" by auto
    then show ?thesis by (auto simp: signin_begin_members request_members)
  qed
qed

lemma client_unchanged:
  "client (register env this token nick) = this"
  "client (signin env this signinMethod) = this"
  by (simp_all add: register_def signin_def split: prod.splits sum.splits)

lemma example_config:
  "config example_client =
      \<lparr>apiUrl = js ''https://v3.passwordless.dev'', apiKey = js ''k'',
       origin = js ''https://a.example'', rpid = js ''a.example''\<rparr>"
  by (simp add: example_client_def new_Client_def)

lemma example_register:
  "register example_env example_client (js ''tok'') (js ''nick'') =
     \<lparr>result = Inr JSUndefined, client = example_client,
      trace =
        [Fetch (register_begin_request example_client (js ''tok'')),
         CredentialsCreate
           \<lparr>challenge = JSUint8Array [1, 2, 3],
            user = \<lparr>user_id = JSUint8Array [117, 49]\<rparr>,
            excludeCredentials = Some [\<lparr>id' = JSUint8Array [1]\<rparr>]\<rparr>,
         Fetch (register_complete_request example_client example_attestation (js ''s1'') (js ''nick''))]\<rparr>"
  by code_simp

lemma example_signin:
  "signinWithId example_env example_client (js ''u1'') =
     \<lparr>result = Inr (js ''jwt''), client = example_client,
      trace =
        [Fetch (signin_begin_request example_client \<lparr>userId = Some (js ''u1''), alias = None\<rparr>),
         CredentialsGet \<lparr>challenge = JSUint8Array [1, 2, 3], allowCredentials = None\<rparr>,
         Fetch (signin_complete_request example_client example_assertion (js ''s2''))]\<rparr>"
  by code_simp

lemma register_try_no_ConsoleError:
  assumes "isBrowserSupported env"
  shows "ConsoleError e \<notin> set (snd (register_try env this token nick))"
  using assms
proof (cases rule: register_outcomes [of env this token nick])
  case (early e' ws)
  then show ?thesis using not_ConsoleError_warns [OF early(2), of e] by simp
qed simp_all

lemma signin_try_no_ConsoleError:
  assumes "isBrowserSupported env"
  shows "ConsoleError e \<notin> set (snd (signin_try env this signinMethod))"
  using assms
proof (cases rule: signin_outcomes [of env this signinMethod])
  case (early e' ws)
  then show ?thesis using not_ConsoleError_warns [OF early(2), of e] by simp
qed simp_all

lemma register_success:
  assumes "isBrowserSupported env" and "result (register env this token nick) = Inr v"
  obtains registration opts cred resp where
    "v = JSUndefined"
    "register_begin_json env (register_begin_request this token) = Inr registration"
    "credentials_create env opts = Inr (Some cred)"
    "register_complete_json env
       (register_complete_request this cred (sessionId registration) nick) = Inr resp"
    "trace (register env this token nick) =
       [Fetch (register_begin_request this token),
        CredentialsCreate opts,
        Fetch (register_complete_request this cred (sessionId registration) nick)]"
  using assms(1)
proof (cases rule: register_outcomes [of env this token nick])
  case (completed registration cb opts cred creq resp)
  from assms(2) completed(8) have v: "v = JSUndefined" by simp
  from completed(5,6) have r: "register_complete_json env
      (register_complete_request this cred (sessionId registration) nick) = Inr resp"
    by simp
  from completed(5,8) have t: "trace (register env this token nick) =
      [Fetch (register_begin_request this token), CredentialsCreate opts,
       Fetch (register_complete_request this cred (sessionId registration) nick)]"
    by simp
  from v completed(1) completed(4) r t show ?thesis by (rule that)
qed (use assms(2) in simp_all)

lemma signin_success:
  assumes "isBrowserSupported env" and "result (signin env this signinMethod) = Inr v"
  obtains answer opts cred resp where
    "signin_begin_json env (signin_begin_request this signinMethod) = Inr answer"
    "credentials_get env opts = Inr (Some cred)"
    "signin_complete_json env
       (signin_complete_request this cred (sessionId answer)) = Inr resp"
    "v = SigninCompleteResponse.data resp"
    "trace (signin env this signinMethod) =
       [Fetch (signin_begin_request this signinMethod),
        CredentialsGet opts,
        Fetch (signin_complete_request this cred (sessionId answer))]"
  using assms(1)
proof (cases rule: signin_outcomes [of env this signinMethod])
  case (completed answer cb opts cred creq resp)
  from assms(2) completed(8) have v: "v = SigninCompleteResponse.data resp" by simp
  from completed(5,6) have r: "signin_complete_json env
      (signin_complete_request this cred (sessionId answer)) = Inr resp"
    by simp
  from completed(5,8) have t: "trace (signin env this signinMethod) =
      [Fetch (signin_begin_request this signinMethod), CredentialsGet opts,
       Fetch (signin_complete_request this cred (sessionId answer))]"
    by simp
  from completed(1) completed(4) r v t show ?thesis by (rule that)
qed (use assms(2) in simp_all)





lemma register_result_supported:
  "result (register env this token nick) = Inr v \<Longrightarrow> isBrowserSupported env"
  by (rule ccontr) (simp add: register_unsupported)



lemma base64url_alphabet:
  "set (base64url bs) \<inter> set (js ''+/='') = {}"
proof -
  have "61 \<notin> set (map b64_char (b64_groups bs))"
    using b64_groups_bound [of bs] b64_char_neq(1) by fastforce
  then have "43 \<notin> set (base64url bs)" "47 \<notin> set (base64url bs)" "61 \<notin> set (base64url bs)"
    by (auto simp: base64url_def replace_all_def)
  then show ?thesis by (simp add: js_def)
qed

lemma coerceToBase64Url_Inr:
  assumes "coerceToBase64Url v = (Inr s, out)"
  shows "\<exists>bs. toUint8Array v = (Inr bs, out) \<and> s = base64url bs"
proof -
  obtain r t where u: "toUint8Array v = (r, t)" by force
  show ?thesis
  proof (cases r)
    case (Inl e)
    with u assms show ?thesis by (simp add: coerceToBase64Url_def)
  next
    case (Inr bs)
    with u have "coerceToBase64Url v = (Inr (base64url bs), t)"
      by (simp add: coerceToBase64Url_bytes)
    with assms u Inr show ?thesis by simp
  qed
qed

lemma base64UrlToBase64_standard:
  "base64UrlToBase64 (replace_all 47 95 (replace_all 43 45 s)) = base64UrlToBase64 s"
  by (simp add: base64UrlToBase64_def replace_all_def)

lemma ToNumber_converts:
  "(\<exists>n. ToNumber x = Inr n) \<longleftrightarrow>
     x \<noteq> ESymbol \<and> (\<forall>i. x \<noteq> EBigInt i) \<and> (\<forall>e. x \<noteq> EObject (Inl e))"
proof (cases x)
  case (EObject outcome)
  then show ?thesis by (cases outcome) simp_all
qed simp_all

lemma ToNumber_throws:
  "(\<exists>e. ToNumber x = Inl e) \<longleftrightarrow>
     x = ESymbol \<or> (\<exists>i. x = EBigInt i) \<or> (\<exists>e. x = EObject (Inl e))"
proof (cases x)
  case (EObject outcome)
  then show ?thesis by (cases outcome) simp_all
qed simp_all

lemma Uint8Array_from_numbers:
  assumes "\<forall>x \<in> set xs. \<exists>n. ToNumber x = Inr n"
  shows "\<exists>ns. map ToNumber xs = map Inr ns \<and> Uint8Array_from xs = Inr (map ToUint8 ns)"
  using assms
proof (induction xs)
  case Nil
  show ?case by simp
next
  case (Cons x xs)
  then obtain ns where ns: "map ToNumber xs = map Inr ns"
    "Uint8Array_from xs = Inr (map ToUint8 ns)"
    by auto
  from Cons.prems obtain n where n: "ToNumber x = Inr n"
    by auto
  have "map ToNumber (x # xs) = map Inr (n # ns)" using n ns by simp
  moreover have "Uint8Array_from (x # xs) = Inr (map ToUint8 (n # ns))" using n ns by simp
  ultimately show ?case by blast
qed

lemma Uint8Array_from_first_failure:
  assumes "\<forall>y \<in> set ys. \<exists>n. ToNumber y = Inr n" and "ToNumber x = Inl e"
  shows "Uint8Array_from (ys @ x # zs) = Inl e"
  using assms
proof (induction ys)
  case Nil
  then show ?case by simp
next
  case (Cons y ys)
  then obtain n where "ToNumber y = Inr n" by auto
  moreover from Cons have "Uint8Array_from (ys @ x # zs) = Inl e" by simp
  ultimately show ?case by simp
qed

lemma Uint8Array_from_failure:
  assumes "\<exists>x \<in> set xs. \<exists>e. ToNumber x = Inl e"
  obtains ys x zs e where "xs = ys @ x # zs" and "\<forall>y \<in> set ys. \<exists>n. ToNumber y = Inr n"
    and "ToNumber x = Inl e" and "Uint8Array_from xs = Inl e"
proof -
  from assms obtain ys x zs where xs: "xs = ys @ x # zs"
    and x: "\<exists>e. ToNumber x = Inl e" and ys: "\<forall>y \<in> set ys. \<not> (\<exists>e. ToNumber y = Inl e)"
    using split_list_first_prop [of xs "\<lambda>x. \<exists>e. ToNumber x = Inl e"] by blast
  from x obtain e where e: "ToNumber x = Inl e" ..
  have c: "\<forall>y \<in> set ys. \<exists>n. ToNumber y = Inr n"
  proof
    fix y assume "y \<in> set ys"
    with ys have "\<not> (\<exists>e. ToNumber y = Inl e)" by simp
    then show "\<exists>n. ToNumber y = Inr n" by (cases "ToNumber y") simp_all
  qed
  from c e have "Uint8Array_from xs = Inl e"
    unfolding xs by (rule Uint8Array_from_first_failure)
  with xs c e show thesis by (rule that)
qed

lemma coerceToBase64Url_array_failure:
  "Uint8Array_from xs = Inl e \<Longrightarrow> coerceToBase64Url (JSArray xs) = (Inl e, [])"
  by (simp add: coerceToBase64Url_def toUint8Array_def)

lemma coerceToBase64Url_array_bytes:
  "Uint8Array_from xs = Inr bs \<Longrightarrow> coerceToBase64Url (JSArray xs) = (Inr (base64url bs), [])"
  by (rule coerceToBase64Url_bytes) (simp add: toUint8Array_def)

lemma ToUint8_finite: "unat (ToUint8 (Finite q)) = nat (js_truncate q mod 256)"
  by (simp add: unat_eq_nat_uint uint_word_of_int)

lemma ToNumber_TypeError:
  assumes "ToNumber x = Inl e" and "\<forall>e'. x \<noteq> EObject (Inl e')"
  shows "kind e = TypeError"
  using assms by (cases x) auto

lemma js_truncate_of_int: "js_truncate (of_int n) = n"
  by (simp add: js_truncate_def)

lemma ToUint8_integral: "unat (ToUint8 (Finite (of_int n))) = nat (n mod 256)"
  by (simp add: js_truncate_of_int unat_eq_nat_uint uint_word_of_int)

section \<open>The specified properties\<close>

text \<open>
  C1.  Decoding undoes encoding, for every byte sequence: the encoder turns the bytes \<open>B\<close>
  (held in a \<open>Uint8Array\<close> or in an \<open>ArrayBuffer\<close>) into a text without writing to the
  console, and the decoder turns that text into a buffer whose bytes are \<open>B\<close> again.
\<close>

theorem C1_roundtrip:
  "coerceToBase64Url (JSUint8Array B) = (Inr (base64url B), []) \<and>
   coerceToBase64Url (JSArrayBuffer B) = (Inr (base64url B), []) \<and>
   coerceToArrayBuffer (JSString (base64url B)) = (Inr B, [])"
proof -
  have "coerceToBase64Url (JSUint8Array B) = (Inr (base64url B), [])"
    by (rule coerceToBase64Url_bytes) (simp add: toUint8Array_def)
  moreover have "coerceToBase64Url (JSArrayBuffer B) = (Inr (base64url B), [])"
    by (rule coerceToBase64Url_bytes) (simp add: toUint8Array_def)
  ultimately show ?thesis using coerceToArrayBuffer_base64url [of B] by simp
qed

theorem C1_roundtrip_witness:
  "coerceToBase64Url (JSUint8Array [0, 128, 255]) = (Inr (js ''AID_''), []) \<and>
   coerceToBase64Url (JSArrayBuffer [0, 128, 255]) = (Inr (js ''AID_''), []) \<and>
   coerceToArrayBuffer (JSString (js ''AID_'')) = (Inr [0, 128, 255], [])"
proof -
  have "base64url [0, 128, 255] = js ''AID_''" by code_simp
  then show ?thesis using C1_roundtrip [of "[0, 128, 255]"] by simp
qed



text \<open>
  C3.  The two ceremonies on a platform call that resolves to \<open>null\<close>.  \<open>register\<close>
  tests the credential and throws its own error, so the ceremony rejects with that
  error wrapped and sends no complete request.  \<open>signin\<close> has no such test: it hands
  \<open>null\<close> to \<open>signinComplete\<close>, where reading \<open>credential.response\<close> throws a
  \<open>TypeError\<close>; the ceremony rejects with the wrapped \<open>TypeError\<close>, and no complete
  request is sent only because that read comes before the \<open>fetch\<close>.
\<close>

theorem C3_null_credential:
  "register (example_env\<lparr>credentials_create := (\<lambda>publicKey. Inr None)\<rparr>) example_client
      (js ''tok'') (js ''nick'') =
     \<lparr>result = Inl (Thrown Error
        (js ''Passwordless register failed: Failed to create credential (navigator.credentials.create)'')),
      client = example_client,
      trace =
        [Fetch (register_begin_request example_client (js ''tok'')),
         CredentialsCreate
           \<lparr>challenge = JSUint8Array [1, 2, 3],
            user = \<lparr>user_id = JSUint8Array [117, 49]\<rparr>,
            excludeCredentials = Some [\<lparr>id' = JSUint8Array [1]\<rparr>]\<rparr>,
         ConsoleError (Thrown Error
           (js ''Failed to create credential (navigator.credentials.create)''))]\<rparr> \<and>
   signinWithId (example_env\<lparr>credentials_get := (\<lambda>publicKey. Inr None)\<rparr>) example_client
      (js ''u1'') =
     \<lparr>result = Inl (Thrown Error
        (js ''Passwordless signin failed: Cannot read properties of null (reading 'response')'')),
      client = example_client,
      trace =
        [Fetch (signin_begin_request example_client \<lparr>userId = Some (js ''u1''), alias = None\<rparr>),
         CredentialsGet \<lparr>challenge = JSUint8Array [1, 2, 3], allowCredentials = None\<rparr>,
         ConsoleError (Thrown TypeError
           (js ''Cannot read properties of null (reading 'response')''))]\<rparr>"
  by code_simp

text \<open>
  C4.  When the platform has no public-key credential capability, \<open>register\<close>,
  \<open>signinWithId\<close> and \<open>signinWithAlias\<close> reject with the error of the guard, unwrapped,
  and nothing has happened before: no request, no platform call, no console output.
\<close>

theorem C4_unsupported_platform:
  assumes "\<not> isBrowserSupported env"
  shows "result (register env this token nick) = Inl unsupported_browser \<and>
         trace (register env this token nick) = [] \<and>
         result (signinWithId env this u) = Inl unsupported_browser \<and>
         trace (signinWithId env this u) = [] \<and>
         result (signinWithAlias env this a) = Inl unsupported_browser \<and>
         trace (signinWithAlias env this a) = []"
  using assms
  by (simp add: register_unsupported signin_unsupported signinWithId_def signinWithAlias_def)

theorem C4_unsupported_platform_witness:
  "\<not> isBrowserSupported (example_env\<lparr>window_PublicKeyCredential := Unbound\<rparr>) \<and>
   result (register (example_env\<lparr>window_PublicKeyCredential := Unbound\<rparr>) example_client
             (js ''tok'') (js ''nick'')) = Inl unsupported_browser \<and>
   trace (register (example_env\<lparr>window_PublicKeyCredential := Unbound\<rparr>) example_client
             (js ''tok'') (js ''nick'')) = [] \<and>
   result (signinWithId (example_env\<lparr>window_PublicKeyCredential := Unbound\<rparr>) example_client
             (js ''u1'')) = Inl unsupported_browser \<and>
   trace (signinWithId (example_env\<lparr>window_PublicKeyCredential := Unbound\<rparr>) example_client
             (js ''u1'')) = [] \<and>
   result (signinWithAlias (example_env\<lparr>window_PublicKeyCredential := Unbound\<rparr>) example_client
             (js ''al'')) = Inl unsupported_browser \<and>
   trace (signinWithAlias (example_env\<lparr>window_PublicKeyCredential := Unbound\<rparr>) example_client
             (js ''al'')) = []"
proof -
  have "\<not> isBrowserSupported (example_env\<lparr>window_PublicKeyCredential := Unbound\<rparr>)"
    by (simp add: isBrowserSupported_def)
  then show ?thesis
    using C4_unsupported_platform [of "example_env\<lparr>window_PublicKeyCredential := Unbound\<rparr>"
        example_client "js ''tok''" "js ''nick''" "js ''u1''" "js ''al''"]
    by blast
qed

text \<open>
  C5.  The first thing a sign-in does on a supporting platform is the begin-signin
  request, and its body has exactly the members \<open>userId\<close>, \<open>RPID\<close>, \<open>Origin\<close> after
  \<open>signinWithId\<close> and exactly the members \<open>alias\<close>, \<open>RPID\<close>, \<open>Origin\<close> after
  \<open>signinWithAlias\<close>: one selector, never both, and no placeholder for the other.
  (\<open>RPID\<close> and \<open>Origin\<close> are the names under which the relying-party id and the
  origin travel.)
\<close>

theorem C5_signin_selector:
  assumes "isBrowserSupported env"
  shows "(\<exists>rest. trace (signinWithId env this u) =
            Fetch \<lparr>url = apiUrl (config this) @ js ''/signin/begin'',
                   method = js ''POST'',
                   headers = createHeaders this,
                   body = [(js ''userId'', JSString u),
                           (js ''RPID'', JSString (rpid (config this))),
                           (js ''Origin'', JSString (origin (config this)))]\<rparr> # rest) \<and>
         (\<exists>rest. trace (signinWithAlias env this a) =
            Fetch \<lparr>url = apiUrl (config this) @ js ''/signin/begin'',
                   method = js ''POST'',
                   headers = createHeaders this,
                   body = [(js ''alias'', JSString a),
                           (js ''RPID'', JSString (rpid (config this))),
                           (js ''Origin'', JSString (origin (config this)))]\<rparr> # rest)"
proof -
  have "signin_begin_request this \<lparr>userId = Some u, alias = None\<rparr> =
          \<lparr>url = apiUrl (config this) @ js ''/signin/begin'', method = js ''POST'',
           headers = createHeaders this,
           body = [(js ''userId'', JSString u),
                   (js ''RPID'', JSString (rpid (config this))),
                   (js ''Origin'', JSString (origin (config this)))]\<rparr>"
    by (simp add: signin_begin_request_def createHeaders_def)
  moreover have "signin_begin_request this \<lparr>userId = None, alias = Some a\<rparr> =
          \<lparr>url = apiUrl (config this) @ js ''/signin/begin'', method = js ''POST'',
           headers = createHeaders this,
           body = [(js ''alias'', JSString a),
                   (js ''RPID'', JSString (rpid (config this))),
                   (js ''Origin'', JSString (origin (config this)))]\<rparr>"
    by (simp add: signin_begin_request_def createHeaders_def)
  ultimately show ?thesis
    using signin_trace_head [OF assms, of this "\<lparr>userId = Some u, alias = None\<rparr>"]
      signin_trace_head [OF assms, of this "\<lparr>userId = None, alias = Some a\<rparr>"]
    by (simp add: signinWithId_def signinWithAlias_def)
qed

theorem C5_signin_selector_witness:
  "isBrowserSupported example_env \<and>
   (\<exists>rest. trace (signinWithId example_env example_client (js ''u1'')) =
      Fetch \<lparr>url = js ''https://v3.passwordless.dev/signin/begin'',
             method = js ''POST'',
             headers = [(js ''ApiKey'', js ''k''), (js ''Content-Type'', js ''application/json'')],
             body = [(js ''userId'', JSString (js ''u1'')),
                     (js ''RPID'', JSString (js ''a.example'')),
                     (js ''Origin'', JSString (js ''https://a.example''))]\<rparr> # rest) \<and>
   (\<exists>rest. trace (signinWithAlias example_env example_client (js ''al'')) =
      Fetch \<lparr>url = js ''https://v3.passwordless.dev/signin/begin'',
             method = js ''POST'',
             headers = [(js ''ApiKey'', js ''k''), (js ''Content-Type'', js ''application/json'')],
             body = [(js ''alias'', JSString (js ''al'')),
                     (js ''RPID'', JSString (js ''a.example'')),
                     (js ''Origin'', JSString (js ''https://a.example''))]\<rparr> # rest)"
proof -
  have s: "isBrowserSupported example_env"
    by (simp add: isBrowserSupported_def example_env_def)
  have c: "config example_client =
      \<lparr>apiUrl = js ''https://v3.passwordless.dev'', apiKey = js ''k'',
       origin = js ''https://a.example'', rpid = js ''a.example''\<rparr>"
    by (simp add: example_client_def new_Client_def)
  have u: "js ''https://v3.passwordless.dev'' @ js ''/signin/begin'' =
           js ''https://v3.passwordless.dev/signin/begin''"
    by (simp add: js_def)
  show ?thesis
    using s C5_signin_selector [OF s, of example_client "js ''u1''" "js ''al''"]
    by (simp add: c u createHeaders_def)
qed

text \<open>
  C6.  The promise of \<open>register\<close> resolves to \<open>undefined\<close>: when a registration
  succeeds, the begin request was answered, the platform returned a credential, the
  complete request was sent and the backend's answer to it was parsed, and that answer
  is dropped.
\<close>

theorem C6_register_resolves_undefined:
  assumes "result (register env this token nick) = Inr v"
  shows "v = JSUndefined \<and>
         (\<exists>registration opts cred resp.
            register_begin_json env (register_begin_request this token) = Inr registration \<and>
            credentials_create env opts = Inr (Some cred) \<and>
            register_complete_json env
              (register_complete_request this cred (sessionId registration) nick) = Inr resp \<and>
            trace (register env this token nick) =
              [Fetch (register_begin_request this token),
               CredentialsCreate opts,
               Fetch (register_complete_request this cred (sessionId registration) nick)])"
proof -
  from assms have "isBrowserSupported env" by (rule register_result_supported)
  from this assms obtain registration opts cred resp where
    "v = JSUndefined"
    "register_begin_json env (register_begin_request this token) = Inr registration"
    "credentials_create env opts = Inr (Some cred)"
    "register_complete_json env
       (register_complete_request this cred (sessionId registration) nick) = Inr resp"
    "trace (register env this token nick) =
       [Fetch (register_begin_request this token),
        CredentialsCreate opts,
        Fetch (register_complete_request this cred (sessionId registration) nick)]"
    by (rule register_success)
  then show ?thesis by (intro conjI exI)
qed

theorem C6_register_resolves_undefined_witness:
  "result (register example_env example_client (js ''tok'') (js ''nick'')) = Inr JSUndefined \<and>
   (\<exists>registration opts cred resp.
      register_begin_json example_env (register_begin_request example_client (js ''tok'')) =
        Inr registration \<and>
      credentials_create example_env opts = Inr (Some cred) \<and>
      register_complete_json example_env
        (register_complete_request example_client cred (sessionId registration) (js ''nick'')) =
        Inr resp \<and>
      trace (register example_env example_client (js ''tok'') (js ''nick'')) =
        [Fetch (register_begin_request example_client (js ''tok'')),
         CredentialsCreate opts,
         Fetch (register_complete_request example_client cred (sessionId registration)
           (js ''nick''))])"
proof -
  have r: "result (register example_env example_client (js ''tok'') (js ''nick'')) = Inr JSUndefined"
    by (simp add: example_register)
  from C6_register_resolves_undefined [OF r]
  have "\<exists>registration opts cred resp.
      register_begin_json example_env (register_begin_request example_client (js ''tok'')) =
        Inr registration \<and>
      credentials_create example_env opts = Inr (Some cred) \<and>
      register_complete_json example_env
        (register_complete_request example_client cred (sessionId registration) (js ''nick'')) =
        Inr resp \<and>
      trace (register example_env example_client (js ''tok'') (js ''nick'')) =
        [Fetch (register_begin_request example_client (js ''tok'')),
         CredentialsCreate opts,
         Fetch (register_complete_request example_client cred (sessionId registration)
           (js ''nick''))]"
    by (rule conjunct2)
  with r show ?thesis by (rule conjI)
qed

theorem C6_response_dropped_counterexample:
  "register_complete_json example_env
     (register_complete_request example_client example_attestation (js ''s1'') (js ''nick'')) =
     Inr (JSObject [(js ''ok'', JSBoolean True)]) \<and>
   Fetch (register_complete_request example_client example_attestation (js ''s1'') (js ''nick''))
     \<in> set (trace (register example_env example_client (js ''tok'') (js ''nick''))) \<and>
   result (register example_env example_client (js ''tok'') (js ''nick'')) = Inr JSUndefined \<and>
   result (register example_env example_client (js ''tok'') (js ''nick'')) \<noteq>
     register_complete_json example_env
       (register_complete_request example_client example_attestation (js ''s1'') (js ''nick''))"
  by (simp add: example_register) (simp add: example_env_def)

text \<open>
  C7.  Whatever value the encoder accepts, its text has none of the characters \<open>+\<close>,
  \<open>/\<close>, \<open>=\<close>.  The decoder does not tell the two alphabets apart: it maps \<open>-\<close> to
  \<open>+\<close> and \<open>_\<close> to \<open>/\<close> and hands the text to \<open>atob\<close>, so a text and the same text
  with every \<open>+\<close> written as \<open>-\<close> and every \<open>/\<close> written as \<open>_\<close> are decoded alike
  (to the same bytes, or to the same error).
\<close>

theorem C7_alphabets:
  "(\<forall>s out. coerceToBase64Url v = (Inr s, out) \<longrightarrow> set s \<inter> set (js ''+/='') = {}) \<and>
   coerceToArrayBuffer (JSString (replace_all 47 95 (replace_all 43 45 text))) =
     coerceToArrayBuffer (JSString text)"
proof (intro conjI allI impI)
  fix s out
  assume "coerceToBase64Url v = (Inr s, out)"
  then obtain bs where "s = base64url bs" using coerceToBase64Url_Inr by blast
  then show "set s \<inter> set (js ''+/='') = {}" by (simp add: base64url_alphabet)
next
  show "coerceToArrayBuffer (JSString (replace_all 47 95 (replace_all 43 45 text))) =
     coerceToArrayBuffer (JSString text)"
    by (simp add: coerceToArrayBuffer_def base64UrlToBase64_standard)
qed

theorem C7_alphabets_witness:
  "coerceToBase64Url (JSUint8Array [251, 255, 191]) = (Inr (js ''-_-_''), []) \<and>
   set (js ''-_-_'') \<inter> set (js ''+/='') = {} \<and>
   replace_all 47 95 (replace_all 43 45 (js ''+/-_'')) = js ''-_-_'' \<and>
   coerceToArrayBuffer (JSString (js ''-_-_'')) = coerceToArrayBuffer (JSString (js ''+/-_''))"
proof -
  have e: "coerceToBase64Url (JSUint8Array [251, 255, 191]) = (Inr (js ''-_-_''), [])"
    by code_simp
  have r: "replace_all 47 95 (replace_all 43 45 (js ''+/-_'')) = js ''-_-_''"
    by code_simp
  from C7_alphabets [of "JSUint8Array [251, 255, 191]" "js ''+/-_''"] e
  have "set (js ''-_-_'') \<inter> set (js ''+/='') = {}"
    and "coerceToArrayBuffer (JSString (replace_all 47 95 (replace_all 43 45 (js ''+/-_'')))) =
     coerceToArrayBuffer (JSString (js ''+/-_''))"
    by blast+
  with e r show ?thesis by simp
qed

theorem C7_standard_alphabet_accepted_counterexample:
  "coerceToArrayBuffer (JSString (js ''+/+/'')) = (Inr [251, 255, 191], []) \<and>
   coerceToArrayBuffer (JSString (js ''-_-_'')) = (Inr [251, 255, 191], [])"
  by code_simp

text \<open>
  C8.  On a supporting platform, whatever error the \<open>try\<close> block of a ceremony raises
  (a rejected request, a response that does not parse, a failed transcoding, a rejected
  or empty platform call) is logged once, by the \<open>console.error\<close> that ends the trace,
  and the ceremony rejects with one \<open>Error\<close> whose message is the ceremony's prefix
  followed by the message of the error raised.  A ceremony resolves only after its
  complete request has been sent and answered.
\<close>

theorem C8_error_propagation:
  assumes "isBrowserSupported env"
  shows
   "(\<forall>error out. register_try env this token nick = (Inl error, out) \<longrightarrow>
        result (register env this token nick) =
          Inl (Thrown Error (js ''Passwordless register failed: '' @ message error)) \<and>
        trace (register env this token nick) = out @ [ConsoleError error] \<and>
        (\<forall>e. ConsoleError e \<notin> set out)) \<and>
    (\<forall>v. result (register env this token nick) = Inr v \<longrightarrow>
        (\<exists>breq opts creq resp.
           trace (register env this token nick) = [Fetch breq, CredentialsCreate opts, Fetch creq] \<and>
           url creq = apiUrl (config this) @ js ''/register/complete'' \<and>
           register_complete_json env creq = Inr resp)) \<and>
    (\<forall>error out. signin_try env this signinMethod = (Inl error, out) \<longrightarrow>
        result (signin env this signinMethod) =
          Inl (Thrown Error (js ''Passwordless signin failed: '' @ message error)) \<and>
        trace (signin env this signinMethod) = out @ [ConsoleError error] \<and>
        (\<forall>e. ConsoleError e \<notin> set out)) \<and>
    (\<forall>v. result (signin env this signinMethod) = Inr v \<longrightarrow>
        (\<exists>breq opts creq resp.
           trace (signin env this signinMethod) = [Fetch breq, CredentialsGet opts, Fetch creq] \<and>
           url creq = apiUrl (config this) @ js ''/signin/complete'' \<and>
           signin_complete_json env creq = Inr resp \<and>
           v = SigninCompleteResponse.data resp))"
proof (intro conjI allI impI)
  fix error out
  assume a: "register_try env this token nick = (Inl error, out)"
  then show "result (register env this token nick) =
          Inl (Thrown Error (js ''Passwordless register failed: '' @ message error))"
    and "trace (register env this token nick) = out @ [ConsoleError error]"
    by (simp_all add: register_supported [OF assms] register_failed_def)
  fix e
  show "ConsoleError e \<notin> set out"
    using register_try_no_ConsoleError [OF assms, of e this token nick] a by simp
next
  fix error out
  assume a: "signin_try env this signinMethod = (Inl error, out)"
  then show "result (signin env this signinMethod) =
          Inl (Thrown Error (js ''Passwordless signin failed: '' @ message error))"
    and "trace (signin env this signinMethod) = out @ [ConsoleError error]"
    by (simp_all add: signin_supported [OF assms] signin_failed_def)
  fix e
  show "ConsoleError e \<notin> set out"
    using signin_try_no_ConsoleError [OF assms, of e this signinMethod] a by simp
next
  fix v
  assume "result (register env this token nick) = Inr v"
  with assms obtain registration opts cred resp where
    "v = JSUndefined"
    and "register_begin_json env (register_begin_request this token) = Inr registration"
    and "credentials_create env opts = Inr (Some cred)"
    and r: "register_complete_json env
       (register_complete_request this cred (sessionId registration) nick) = Inr resp"
    and t: "trace (register env this token nick) =
       [Fetch (register_begin_request this token), CredentialsCreate opts,
        Fetch (register_complete_request this cred (sessionId registration) nick)]"
    by (rule register_success)
  have u: "url (register_complete_request this cred (sessionId registration) nick) =
      apiUrl (config this) @ js ''/register/complete''"
    by (simp add: register_complete_request_def)
  from t u r show "\<exists>breq opts creq resp.
           trace (register env this token nick) = [Fetch breq, CredentialsCreate opts, Fetch creq] \<and>
           url creq = apiUrl (config this) @ js ''/register/complete'' \<and>
           register_complete_json env creq = Inr resp"
    by (intro exI conjI)
next
  fix v
  assume "result (signin env this signinMethod) = Inr v"
  with assms obtain answer opts cred resp where
    "signin_begin_json env (signin_begin_request this signinMethod) = Inr answer"
    and "credentials_get env opts = Inr (Some cred)"
    and r: "signin_complete_json env (signin_complete_request this cred (sessionId answer)) = Inr resp"
    and v: "v = SigninCompleteResponse.data resp"
    and t: "trace (signin env this signinMethod) =
       [Fetch (signin_begin_request this signinMethod), CredentialsGet opts,
        Fetch (signin_complete_request this cred (sessionId answer))]"
    by (rule signin_success)
  have u: "url (signin_complete_request this cred (sessionId answer)) =
      apiUrl (config this) @ js ''/signin/complete''"
    by (simp add: signin_complete_request_def)
  from t u r v show "\<exists>breq opts creq resp.
           trace (signin env this signinMethod) = [Fetch breq, CredentialsGet opts, Fetch creq] \<and>
           url creq = apiUrl (config this) @ js ''/signin/complete'' \<and>
           signin_complete_json env creq = Inr resp \<and>
           v = SigninCompleteResponse.data resp"
    by (intro exI conjI)
qed

theorem C8_error_propagation_witness:
  "isBrowserSupported (example_env\<lparr>credentials_create := (\<lambda>publicKey. Inl not_allowed)\<rparr>) \<and>
   register_try (example_env\<lparr>credentials_create := (\<lambda>publicKey. Inl not_allowed)\<rparr>)
       example_client (js ''tok'') (js ''nick'') =
     (Inl not_allowed,
      [Fetch (register_begin_request example_client (js ''tok'')),
       CredentialsCreate
         \<lparr>challenge = JSUint8Array [1, 2, 3],
          user = \<lparr>user_id = JSUint8Array [117, 49]\<rparr>,
          excludeCredentials = Some [\<lparr>id' = JSUint8Array [1]\<rparr>]\<rparr>]) \<and>
   result (register (example_env\<lparr>credentials_create := (\<lambda>publicKey. Inl not_allowed)\<rparr>)
       example_client (js ''tok'') (js ''nick'')) =
     Inl (Thrown Error
       (js ''Passwordless register failed: The operation either timed out or was not allowed.'')) \<and>
   trace (register (example_env\<lparr>credentials_create := (\<lambda>publicKey. Inl not_allowed)\<rparr>)
       example_client (js ''tok'') (js ''nick'')) =
     [Fetch (register_begin_request example_client (js ''tok'')),
      CredentialsCreate
        \<lparr>challenge = JSUint8Array [1, 2, 3],
         user = \<lparr>user_id = JSUint8Array [117, 49]\<rparr>,
         excludeCredentials = Some [\<lparr>id' = JSUint8Array [1]\<rparr>]\<rparr>,
      ConsoleError not_allowed]"
proof -
  let ?env = "example_env\<lparr>credentials_create := (\<lambda>publicKey. Inl not_allowed)\<rparr>"
  have sup: "isBrowserSupported ?env"
    by (simp add: isBrowserSupported_def example_env_def)
  have tried: "register_try ?env example_client (js ''tok'') (js ''nick'') =
     (Inl not_allowed,
      [Fetch (register_begin_request example_client (js ''tok'')),
       CredentialsCreate
         \<lparr>challenge = JSUint8Array [1, 2, 3],
          user = \<lparr>user_id = JSUint8Array [117, 49]\<rparr>,
          excludeCredentials = Some [\<lparr>id' = JSUint8Array [1]\<rparr>]\<rparr>])"
    by code_simp
  have msg: "js ''Passwordless register failed: '' @ message not_allowed =
      js ''Passwordless register failed: The operation either timed out or was not allowed.''"
    by (simp add: not_allowed_def js_def)
  from C8_error_propagation [OF sup, of example_client "js ''tok''" "js ''nick''"] tried
  have "result (register ?env example_client (js ''tok'') (js ''nick'')) =
          Inl (Thrown Error (js ''Passwordless register failed: '' @ message not_allowed))"
    and "trace (register ?env example_client (js ''tok'') (js ''nick'')) =
          [Fetch (register_begin_request example_client (js ''tok'')),
           CredentialsCreate
             \<lparr>challenge = JSUint8Array [1, 2, 3],
              user = \<lparr>user_id = JSUint8Array [117, 49]\<rparr>,
              excludeCredentials = Some [\<lparr>id' = JSUint8Array [1]\<rparr>]\<rparr>] @
          [ConsoleError not_allowed]"
    by blast+
  with sup tried msg show ?thesis by simp
qed

text \<open>
  C9.  No operation changes the client object, so the configuration set by the
  constructor stays as it is; and every request of a ceremony (the begin request and
  the complete request alike) carries the relying-party id and the origin of that
  configuration, so any two requests of one ceremony carry the same two values.
\<close>

theorem C9_configuration_read_only:
  "client (register env this token nick) = this \<and>
   client (signinWithId env this u) = this \<and>
   client (signinWithAlias env this a) = this \<and>
   (\<forall>req req'.
      Fetch req \<in> set (trace (register env this token nick)) \<and>
      Fetch req' \<in> set (trace (register env this token nick)) \<longrightarrow>
        member (body req) (js ''RPID'') = JSString (rpid (config this)) \<and>
        member (body req) (js ''Origin'') = JSString (origin (config this)) \<and>
        member (body req) (js ''RPID'') = member (body req') (js ''RPID'') \<and>
        member (body req) (js ''Origin'') = member (body req') (js ''Origin'')) \<and>
   (\<forall>req req'.
      Fetch req \<in> set (trace (signin env this signinMethod)) \<and>
      Fetch req' \<in> set (trace (signin env this signinMethod)) \<longrightarrow>
        member (body req) (js ''RPID'') = JSString (rpid (config this)) \<and>
        member (body req) (js ''Origin'') = JSString (origin (config this)) \<and>
        member (body req) (js ''RPID'') = member (body req') (js ''RPID'') \<and>
        member (body req) (js ''Origin'') = member (body req') (js ''Origin''))"
proof -
  have "client (signinWithId env this u) = this" "client (signinWithAlias env this a) = this"
    by (simp_all add: signinWithId_def signinWithAlias_def client_unchanged)
  then show ?thesis
    using register_requests [of _ env this token nick]
      signin_requests [of _ env this signinMethod]
    by (simp add: client_unchanged)
qed

theorem C9_configuration_read_only_witness:
  "Fetch (register_begin_request example_client (js ''tok'')) \<in>
      set (trace (register example_env example_client (js ''tok'') (js ''nick''))) \<and>
   Fetch (register_complete_request example_client example_attestation (js ''s1'') (js ''nick'')) \<in>
      set (trace (register example_env example_client (js ''tok'') (js ''nick''))) \<and>
   member (body (register_begin_request example_client (js ''tok''))) (js ''RPID'') =
     JSString (js ''a.example'') \<and>
   member (body (register_begin_request example_client (js ''tok''))) (js ''Origin'') =
     JSString (js ''https://a.example'') \<and>
   member (body (register_complete_request example_client example_attestation (js ''s1'')
       (js ''nick''))) (js ''RPID'') = JSString (js ''a.example'') \<and>
   member (body (register_complete_request example_client example_attestation (js ''s1'')
       (js ''nick''))) (js ''Origin'') = JSString (js ''https://a.example'') \<and>
   client (register example_env example_client (js ''tok'') (js ''nick'')) = example_client"
proof -
  let ?b = "register_begin_request example_client (js ''tok'')"
  let ?c = "register_complete_request example_client example_attestation (js ''s1'') (js ''nick'')"
  let ?R = "register example_env example_client (js ''tok'') (js ''nick'')"
  have m: "Fetch ?b \<in> set (trace ?R)" "Fetch ?c \<in> set (trace ?R)"
    by (simp_all add: example_register)
  note C9 = C9_configuration_read_only [of example_env example_client "js ''tok''" "js ''nick''"]
  from C9 have unchanged: "client ?R = example_client" by blast
  from C9 m have "member (body ?b) (js ''RPID'') = JSString (rpid (config example_client))"
    and "member (body ?b) (js ''Origin'') = JSString (origin (config example_client))"
    and "member (body ?c) (js ''RPID'') = JSString (rpid (config example_client))"
    and "member (body ?c) (js ''Origin'') = JSString (origin (config example_client))"
    by blast+
  then have "member (body ?b) (js ''RPID'') = JSString (js ''a.example'')"
    and "member (body ?b) (js ''Origin'') = JSString (js ''https://a.example'')"
    and "member (body ?c) (js ''RPID'') = JSString (js ''a.example'')"
    and "member (body ?c) (js ''Origin'') = JSString (js ''https://a.example'')"
    by (simp_all add: example_config)
  with m unchanged show ?thesis by blast
qed

text \<open>
  C10.  The encoder does not look at the elements of a plain array; \<open>Uint8Array.from\<close>
  does, converting each element with \<open>ToNumber\<close> and then \<open>ToUint8\<close>.

  \<^item> \<open>ToNumber\<close> converts a Number (to itself), a string (to \<open>StringToNumber\<close> of its
    text), \<open>undefined\<close> (to \<open>NaN\<close>), \<open>null\<close> (to 0), a boolean (to 0 or 1) and an
    object (to what its own conversion comes to); it throws a \<open>TypeError\<close> for a BigInt
    and for a Symbol.
  \<^item> When no element is a BigInt, a Symbol or an object whose conversion throws, the
    call succeeds, whatever the Numbers and the strings are, and encodes the bytes
    \<open>ToUint8 (ToNumber x)\<close>.
  \<^item> The call fails, the encoder writing nothing to the console, with the error thrown
    for the first element that \<open>ToNumber\<close> does not convert.
  \<^item> Every array that holds a BigInt, a Symbol or an object whose conversion throws has
    such a first element and fails so, with a \<open>TypeError\<close> when no object of the array
    throws.
  \<^item> \<open>ToUint8\<close> truncates a finite value towards zero and reduces it modulo \<open>2^8\<close>, so
    that the integral value \<open>n\<close> becomes the byte \<open>n mod 2^8\<close>; \<open>NaN\<close> and the
    infinities become 0.
\<close>

theorem C10_plain_array:
  "(ToNumber (ENumber number) = Inr number \<and>
    ToNumber (EString s) = Inr (StringToNumber s) \<and>
    ToNumber EUndefined = Inr NaN \<and>
    ToNumber ENull = Inr (Finite 0) \<and>
    ToNumber (EBoolean b) = Inr (Finite (if b then 1 else 0)) \<and>
    ToNumber (EObject outcome) = outcome \<and>
    (\<exists>m. ToNumber (EBigInt i) = Inl (Thrown TypeError m)) \<and>
    (\<exists>m. ToNumber ESymbol = Inl (Thrown TypeError m))) \<and>
   ((\<forall>x \<in> set xs. x \<noteq> ESymbol \<and> (\<forall>i. x \<noteq> EBigInt i) \<and> (\<forall>e. x \<noteq> EObject (Inl e))) \<longrightarrow>
      (\<exists>ns. map ToNumber xs = map Inr ns \<and>
            coerceToBase64Url (JSArray xs) = (Inr (base64url (map ToUint8 ns)), []))) \<and>
   (\<forall>ys x zs e. xs = ys @ x # zs \<and> (\<forall>y \<in> set ys. \<exists>n. ToNumber y = Inr n) \<and>
        ToNumber x = Inl e \<longrightarrow>
      coerceToBase64Url (JSArray xs) = (Inl e, [])) \<and>
   ((\<exists>x \<in> set xs. x = ESymbol \<or> (\<exists>i. x = EBigInt i) \<or> (\<exists>e. x = EObject (Inl e))) \<longrightarrow>
      (\<exists>ys x zs e. xs = ys @ x # zs \<and> (\<forall>y \<in> set ys. \<exists>n. ToNumber y = Inr n) \<and>
           ToNumber x = Inl e \<and>
           coerceToBase64Url (JSArray xs) = (Inl e, []) \<and>
           ((\<forall>x \<in> set xs. \<forall>e'. x \<noteq> EObject (Inl e')) \<longrightarrow> kind e = TypeError))) \<and>
   (unat (ToUint8 (Finite q)) = nat (js_truncate q mod 2 ^ 8) \<and>
    unat (ToUint8 (Finite (of_int n))) = nat (n mod 2 ^ 8) \<and>
    ToUint8 NaN = 0 \<and> ToUint8 PosInfinity = 0 \<and> ToUint8 NegInfinity = 0)"
proof (intro conjI impI allI)
  assume "\<forall>x \<in> set xs. x \<noteq> ESymbol \<and> (\<forall>i. x \<noteq> EBigInt i) \<and> (\<forall>e. x \<noteq> EObject (Inl e))"
  then have "\<forall>x \<in> set xs. \<exists>n. ToNumber x = Inr n"
    by (simp add: ToNumber_converts)
  then obtain ns where ns: "map ToNumber xs = map Inr ns"
    and b: "Uint8Array_from xs = Inr (map ToUint8 ns)"
    using Uint8Array_from_numbers by blast
  from b have "coerceToBase64Url (JSArray xs) = (Inr (base64url (map ToUint8 ns)), [])"
    by (rule coerceToBase64Url_array_bytes)
  with ns show "\<exists>ns. map ToNumber xs = map Inr ns \<and>
            coerceToBase64Url (JSArray xs) = (Inr (base64url (map ToUint8 ns)), [])"
    by blast
next
  fix ys x zs e
  assume a: "xs = ys @ x # zs \<and> (\<forall>y \<in> set ys. \<exists>n. ToNumber y = Inr n) \<and> ToNumber x = Inl e"
  then have "Uint8Array_from (ys @ x # zs) = Inl e"
    by (intro Uint8Array_from_first_failure) simp_all
  with a have "Uint8Array_from xs = Inl e" by simp
  then show "coerceToBase64Url (JSArray xs) = (Inl e, [])"
    by (rule coerceToBase64Url_array_failure)
next
  assume "\<exists>x \<in> set xs. x = ESymbol \<or> (\<exists>i. x = EBigInt i) \<or> (\<exists>e. x = EObject (Inl e))"
  then have "\<exists>x \<in> set xs. \<exists>e. ToNumber x = Inl e"
    by (simp add: ToNumber_throws)
  then obtain ys x zs e where xs: "xs = ys @ x # zs"
    and ys: "\<forall>y \<in> set ys. \<exists>n. ToNumber y = Inr n" and x: "ToNumber x = Inl e"
    and f: "Uint8Array_from xs = Inl e"
    by (rule Uint8Array_from_failure)
  from f have c: "coerceToBase64Url (JSArray xs) = (Inl e, [])"
    by (rule coerceToBase64Url_array_failure)
  have k: "(\<forall>x \<in> set xs. \<forall>e'. x \<noteq> EObject (Inl e')) \<longrightarrow> kind e = TypeError"
  proof
    assume "\<forall>x \<in> set xs. \<forall>e'. x \<noteq> EObject (Inl e')"
    with xs have "\<forall>e'. x \<noteq> EObject (Inl e')" by simp
    with x show "kind e = TypeError" by (rule ToNumber_TypeError)
  qed
  from xs ys x c k show "\<exists>ys x zs e. xs = ys @ x # zs \<and>
           (\<forall>y \<in> set ys. \<exists>n. ToNumber y = Inr n) \<and>
           ToNumber x = Inl e \<and>
           coerceToBase64Url (JSArray xs) = (Inl e, []) \<and>
           ((\<forall>x \<in> set xs. \<forall>e'. x \<noteq> EObject (Inl e')) \<longrightarrow> kind e = TypeError)"
    by (intro exI conjI)
next
  show "unat (ToUint8 (Finite q)) = nat (js_truncate q mod 2 ^ 8)"
    using ToUint8_finite [of q] by simp
next
  show "unat (ToUint8 (Finite (of_int n))) = nat (n mod 2 ^ 8)"
    using ToUint8_integral [of n] by simp
qed simp_all


theorem C10_plain_array_witness:
  "coerceToBase64Url
     (JSArray [ENumber (Finite 256), ENumber (Finite (- 1)), ENumber (Finite (3 / 2)),
       ENumber NaN, EUndefined, ENull, EBoolean True, EString (js ''300''),
       EString (js ''abc''), EObject (Inr NaN)]) =
     (Inr (base64url [0, 255, 1, 0, 0, 0, 1, 44, 0, 0]), []) \<and>
   coerceToBase64Url
     (JSArray [ENumber (Finite 1), EObject (Inl (Thrown Error (js ''valueOf''))), ESymbol]) =
     (Inl (Thrown Error (js ''valueOf'')), []) \<and>
   (\<exists>e. coerceToBase64Url (JSArray [EString (js ''1''), EBigInt 1, EObject (Inr NaN)]) =
          (Inl e, []) \<and> kind e = TypeError) \<and>
   unat (ToUint8 (Finite (3 / 2))) = 1 \<and>
   unat (ToUint8 (Finite (of_int (- 1)))) = 255"
proof -
  let ?xs = "[ENumber (Finite 256), ENumber (Finite (- 1)), ENumber (Finite (3 / 2)),
       ENumber NaN, EUndefined, ENull, EBoolean True, EString (js ''300''),
       EString (js ''abc''), EObject (Inr NaN)]"
  let ?e = "Thrown Error (js ''valueOf'')"
  let ?ys = "[ENumber (Finite 1), EObject (Inl ?e), ESymbol]"
  let ?zs = "[EString (js ''1''), EBigInt 1, EObject (Inr NaN)]"
  have t: "js_truncate 256 = 256" "js_truncate (- 1) = - 1" "js_truncate (3 / 2) = 1"
    "js_truncate 0 = 0" "js_truncate 1 = 1" "js_truncate 300 = 300"
    by (simp_all add: js_truncate_def floor_eq_iff ceiling_eq_iff)
  have s: "StringToNumber (js ''300'') = Finite 300" "StringToNumber (js ''abc'') = NaN"
    by code_simp+
  have "\<forall>x \<in> set ?xs. x \<noteq> ESymbol \<and> (\<forall>i. x \<noteq> EBigInt i) \<and> (\<forall>e. x \<noteq> EObject (Inl e))"
    by simp
  then have "\<exists>ns. map ToNumber ?xs = map Inr ns \<and>
      coerceToBase64Url (JSArray ?xs) = (Inr (base64url (map ToUint8 ns)), [])"
    by (rule C10_plain_array [where xs = ?xs, THEN conjunct2, THEN conjunct1, THEN mp])
  then obtain ns where
    ns: "map ToNumber ?xs = map Inr ns"
    and e: "coerceToBase64Url (JSArray ?xs) = (Inr (base64url (map ToUint8 ns)), [])"
    by (elim exE conjE)
  from ns have "ns = [Finite 256, Finite (- 1), Finite (3 / 2), NaN, NaN, Finite 0, Finite 1,
      Finite 300, NaN, NaN]"
    by (auto simp: map_eq_Cons_conv s)
  then have "map ToUint8 ns = [0, 255, 1, 0, 0, 0, 1, 44, 0, 0]" by (simp add: t)
  with e have 1: "coerceToBase64Url (JSArray ?xs) =
     (Inr (base64url [0, 255, 1, 0, 0, 0, 1, 44, 0, 0]), [])"
    by simp
  have "?ys = [ENumber (Finite 1)] @ EObject (Inl ?e) # [ESymbol] \<and>
      (\<forall>y \<in> set [ENumber (Finite 1)]. \<exists>n. ToNumber y = Inr n) \<and>
      ToNumber (EObject (Inl ?e)) = Inl ?e"
    by simp
  then have 2: "coerceToBase64Url (JSArray ?ys) = (Inl ?e, [])"
    by (rule C10_plain_array [where xs = ?ys, THEN conjunct2, THEN conjunct2, THEN conjunct1,
      THEN spec, THEN spec, THEN spec, THEN spec, THEN mp])
  have "\<exists>x \<in> set ?zs. x = ESymbol \<or> (\<exists>i. x = EBigInt i) \<or> (\<exists>e. x = EObject (Inl e))"
    by simp
  then have "\<exists>ys x zs e. ?zs = ys @ x # zs \<and>
      (\<forall>y \<in> set ys. \<exists>n. ToNumber y = Inr n) \<and> ToNumber x = Inl e \<and>
      coerceToBase64Url (JSArray ?zs) = (Inl e, []) \<and>
      ((\<forall>x \<in> set ?zs. \<forall>e'. x \<noteq> EObject (Inl e')) \<longrightarrow> kind e = TypeError)"
    by (rule C10_plain_array [where xs = ?zs, THEN conjunct2, THEN conjunct2, THEN conjunct2,
      THEN conjunct1, THEN mp])
  then obtain e' where "coerceToBase64Url (JSArray ?zs) = (Inl e', [])"
    and "(\<forall>x \<in> set ?zs. \<forall>e'. x \<noteq> EObject (Inl e')) \<longrightarrow> kind e' = TypeError"
    by (elim exE conjE)
  moreover have "\<forall>x \<in> set ?zs. \<forall>e'. x \<noteq> EObject (Inl e')" by simp
  ultimately have "coerceToBase64Url (JSArray ?zs) = (Inl e', []) \<and> kind e' = TypeError"
    by simp
  then have 3: "\<exists>e. coerceToBase64Url (JSArray ?zs) = (Inl e, []) \<and> kind e = TypeError" ..
  note u = C10_plain_array [where q = "3 / 2" and n = "- 1", THEN conjunct2, THEN conjunct2,
      THEN conjunct2, THEN conjunct2]
  from u have 4: "unat (ToUint8 (Finite (3 / 2))) = 1"
    by (simp add: t)
  from u have 5: "unat (ToUint8 (Finite (of_int (- 1)))) = 255"
    by simp
  from 1 2 3 4 5 show ?thesis by (intro conjI)
qed

theorem C10_symbol_element_counterexample:
  "coerceToBase64Url (JSArray [ENumber (Finite 1), ESymbol]) =
     (Inl (Thrown TypeError (js ''Cannot convert a Symbol value to a number'')), []) \<and>
   coerceToBase64Url (JSArray [EBigInt 1]) =
     (Inl (Thrown TypeError (js ''Cannot convert a BigInt value to a number'')), []) \<and>
   coerceToBase64Url (JSArray [EObject (Inl (Thrown Error (js ''valueOf'')))]) =
     (Inl (Thrown Error (js ''valueOf'')), [])"
  by (simp add: coerceToBase64Url_def toUint8Array_def)

end
